theory Spec2Isabelle
  imports Complex_Main "HOL-Library.Char_ord" "HOL-Library.List_Lexorder"
begin

section \<open>JavaScript values\<close>

text \<open>
  The data bag of a notification request is a \<^verbatim>\<open>Record<string, any>\<close>. A value of type
  \<^verbatim>\<open>any\<close> is modelled by the constructors below. The service uses such a value in two
  ways only, for its truthiness and for its string form, so a number is represented by
  its string form, the result of \<^verbatim>\<open>Number.prototype.toString\<close> (\<open>0\<close>, \<open>-1.5\<close>, \<open>1e+21\<close>,
  \<open>NaN\<close>, \<open>Infinity\<close>): it determines the number up to the sign of zero, and the falsy numbers
  are those that read \<open>0\<close> or \<open>NaN\<close>. \<open>Obj\<close> stands for any object or function and
  carries the string its conversion to a string gives.
\<close>

datatype js_value = Undefined | Null | Bool bool | Num string | Str string | Obj string

fun truthy :: "js_value \<Rightarrow> bool" where
  "truthy Undefined = False"
| "truthy Null = False"
| "truthy (Bool b) = b"
| "truthy (Num n) = (n \<noteq> ''0'' \<and> n \<noteq> ''NaN'')"
| "truthy (Str s) = (s \<noteq> [])"
| "truthy (Obj s) = True"

fun to_string :: "js_value \<Rightarrow> string" where
  "to_string Undefined = ''undefined''"
| "to_string Null = ''null''"
| "to_string (Bool b) = (if b then ''true'' else ''false'')"
| "to_string (Num n) = n"
| "to_string (Str s) = s"
| "to_string (Obj s) = s"

text \<open>
  An object has its own properties and the properties it inherits through its prototype
  chain. The property read \<^verbatim>\<open>obj[k]\<close> takes the own property when there is one, else the
  inherited one, else it yields \<^verbatim>\<open>undefined\<close>.
\<close>

record js_object =
  own_props :: "string \<rightharpoonup> js_value"
  inherited_props :: "string \<rightharpoonup> js_value"

definition js_get :: "js_object \<Rightarrow> string \<Rightarrow> js_value" where
  "js_get obj k =
     (case own_props obj k of
        Some v \<Rightarrow> v
      | None \<Rightarrow> (case inherited_props obj k of Some v \<Rightarrow> v | None \<Rightarrow> Undefined))"

text \<open>
  What an object literal and a parsed JSON object inherit: the properties of
  \<^verbatim>\<open>Object.prototype\<close>, which are functions, and \<^verbatim>\<open>__proto__\<close>, which is
  \<^verbatim>\<open>Object.prototype\<close> itself. The strings are their string forms in Node.
\<close>

definition Object_prototype :: "string \<rightharpoonup> js_value" where
  "Object_prototype =
     map_of
       [(''constructor'', Obj ''function Object() { [native code] }''),
        (''__defineGetter__'', Obj ''function __defineGetter__() { [native code] }''),
        (''__defineSetter__'', Obj ''function __defineSetter__() { [native code] }''),
        (''hasOwnProperty'', Obj ''function hasOwnProperty() { [native code] }''),
        (''__lookupGetter__'', Obj ''function __lookupGetter__() { [native code] }''),
        (''__lookupSetter__'', Obj ''function __lookupSetter__() { [native code] }''),
        (''isPrototypeOf'', Obj ''function isPrototypeOf() { [native code] }''),
        (''propertyIsEnumerable'', Obj ''function propertyIsEnumerable() { [native code] }''),
        (''toString'', Obj ''function toString() { [native code] }''),
        (''valueOf'', Obj ''function valueOf() { [native code] }''),
        (''__proto__'', Obj ''[object Object]''),
        (''toLocaleString'', Obj ''function toLocaleString() { [native code] }'')]"

definition plain_object :: "(string \<rightharpoonup> js_value) \<Rightarrow> js_object" where
  "plain_object props = \<lparr>own_props = props, inherited_props = Object_prototype\<rparr>"

text \<open>
  The string form of a whole number, as a template literal prints \<^verbatim>\<open>Date.now()\<close>: a time
  value is a whole number of milliseconds of magnitude at most 8.64e15, and below 1e21 the
  string form of a whole number is its decimal digits.
\<close>

function show_digits :: "int \<Rightarrow> string" where
  "show_digits i =
     (if i < 10 then [''0123456789'' ! nat i]
      else show_digits (i div 10) @ [''0123456789'' ! nat (i mod 10)])"
  by pat_completeness auto
termination
  by (relation "measure nat") auto

declare show_digits.simps [simp del]

definition show_int :: "int \<Rightarrow> string" where
  "show_int i = (if i < 0 then CHR ''-'' # show_digits (- i) else show_digits i)"

section \<open>Template engine (types/notifications.ts)\<close>

text \<open>
  \<^verbatim>\<open>TEMPLATE_VARIABLE_REGEX = /\{\{([^}]+)\}\}/g\<close>. A match at the head of a string is
  two opening braces, the longest non-empty run of characters other than a closing brace,
  and two closing braces. The run is greedy, and giving a character back never helps: the
  character given back is not a closing brace. \<open>match_here\<close> returns the captured variable
  and the text after the match.
\<close>

definition match_here :: "string \<Rightarrow> (string \<times> string) option" where
  "match_here s =
     (if take 2 s = ''{{'' then
        (let t = drop 2 s;
             v = takeWhile (\<lambda>c. c \<noteq> CHR ''}'') t;
             r = dropWhile (\<lambda>c. c \<noteq> CHR ''}'') t
         in if v \<noteq> [] \<and> take 2 r = ''}}'' then Some (v, drop 2 r) else None)
      else None)"

lemma match_here_shorter:
  "match_here s = Some (v, rest) \<Longrightarrow> length rest < length s"
proof -
  assume m: "match_here s = Some (v, rest)"
  let ?t = "drop 2 s"
  let ?r = "dropWhile (\<lambda>c. c \<noteq> CHR ''}'') ?t"
  from m have h: "take 2 s = ''{{''" and r: "rest = drop 2 ?r"
    by (auto simp: match_here_def Let_def split: if_splits)
  from h have "length s \<ge> 2"
    by (metis length_take min.cobounded1 length_Cons list.size(3) numeral_2_eq_2)
  moreover have "length ?r \<le> length ?t"
    by (rule length_dropWhile_le)
  ultimately show ?thesis using r by simp
qed

text \<open>
  \<^verbatim>\<open>String.prototype.replace\<close> with a global regular expression and a callback: the
  string is scanned from the left; where the expression matches, the callback's result
  (called with the whole match and the captured group) replaces the match and the scan
  goes on behind it; any other character is copied.
\<close>

function replace_regex :: "(string \<Rightarrow> string \<Rightarrow> string) \<Rightarrow> string \<Rightarrow> string" where
  "replace_regex f [] = []"
| "replace_regex f (c # cs) =
     (case match_here (c # cs) of
        Some (v, rest) \<Rightarrow> f (''{{'' @ v @ ''}}'') v @ replace_regex f rest
      | None \<Rightarrow> c # replace_regex f cs)"
  by pat_completeness auto
termination
  by (relation "measure (\<lambda>(f, s). length s)") (auto dest: match_here_shorter)

text \<open>
  \<^verbatim>\<open>replaceTemplateVariables(template, data)\<close>: the callback is
  \<^verbatim>\<open>(match, variable) => data[variable] || match\<close>, and \<^verbatim>\<open>replace\<close> converts what it
  returns to a string.
\<close>

definition replaceTemplateVariables :: "string \<Rightarrow> js_object \<Rightarrow> string" where
  "replaceTemplateVariables template data =
     replace_regex
       (\<lambda>match variable.
          if truthy (js_get data variable) then to_string (js_get data variable) else match)
       template"

text \<open>
  The occurrences of placeholders in a template, as the regular expression finds them
  (the successive results of \<^verbatim>\<open>TEMPLATE_VARIABLE_REGEX.exec\<close>), with the text between them.
\<close>

datatype segment = Text char | Placeholder string

function segments :: "string \<Rightarrow> segment list" where
  "segments [] = []"
| "segments (c # cs) =
     (case match_here (c # cs) of
        Some (v, rest) \<Rightarrow> Placeholder v # segments rest
      | None \<Rightarrow> Text c # segments cs)"
  by pat_completeness auto
termination
  by (relation "measure length") (auto dest: match_here_shorter)

fun segment_source :: "segment \<Rightarrow> string" where
  "segment_source (Text c) = [c]"
| "segment_source (Placeholder n) = ''{{'' @ n @ ''}}''"

text \<open>What the callback makes of one segment.\<close>

fun render_segment :: "js_object \<Rightarrow> segment \<Rightarrow> string" where
  "render_segment data (Text c) = [c]"
| "render_segment data (Placeholder n) =
     (if truthy (js_get data n) then to_string (js_get data n) else ''{{'' @ n @ ''}}'')"

text \<open>
  The replacement policy, stated on the data bag's own keys: \<open>rendered data segment piece\<close>
  says that \<open>piece\<close> is an admissible output for the segment. Text is copied. A placeholder
  whose name is an own key is replaced by the string form of a truthy value and kept
  verbatim for a falsy one; a placeholder whose name is neither an own key nor inherited
  is kept verbatim. For a name that is inherited only, the policy admits any output.
\<close>

fun rendered :: "js_object \<Rightarrow> segment \<Rightarrow> string \<Rightarrow> bool" where
  "rendered data (Text c) piece = (piece = [c])"
| "rendered data (Placeholder n) piece =
     (case own_props data n of
        Some v \<Rightarrow> piece = (if truthy v then to_string v else ''{{'' @ n @ ''}}'')
      | None \<Rightarrow> inherited_props data n = None \<longrightarrow> piece = ''{{'' @ n @ ''}}'')"

definition data_zero :: js_object where
  "data_zero = plain_object [''count'' \<mapsto> Num ''0'']"

definition data_john :: js_object where
  "data_john = plain_object [''name'' \<mapsto> Str ''John Doe'', ''visits'' \<mapsto> Num ''0'']"

section \<open>Data model (types/notifications.ts, lib/security.ts)\<close>

text \<open>
  Interfaces are records; since several interfaces share field names, each record's fields
  carry a prefix (\<open>r_\<close> recipient, \<open>q_\<close> request, \<open>rs_\<close> response, \<open>l_\<close> log, \<open>qh_\<close> quiet
  hours, \<open>p_\<close> preferences, \<open>pp_\<close> partial preferences, \<open>ev_\<close>/\<open>a_\<close> audit). An optional field
  is an \<open>option\<close>. The request's \<^verbatim>\<open>type\<close> and \<^verbatim>\<open>template\<close> are kept as the strings that arrive
  at run time, because \<^verbatim>\<open>validateRequest\<close> checks them against the allowed literals; its
  \<^verbatim>\<open>data\<close> is optional for the same reason. The request fields \<^verbatim>\<open>scheduledAt\<close> and
  \<^verbatim>\<open>retryAttempts\<close> are never read by the service and are left out. Dates are
  milliseconds since the epoch; costs and random samples are rationals.
\<close>

datatype NotificationStatus = Pending | Sent | Failed | Delivered | Bounced

record Recipient =
  r_phone :: "string option"
  r_email :: "string option"
  r_name :: "string option"

record NotificationRequest =
  q_type :: string
  q_recipient :: Recipient
  q_template :: string
  q_data :: "js_object option"
  q_priority :: "string option"

record NotificationResponse =
  rs_success :: bool
  rs_messageId :: "string option"
  rs_status :: NotificationStatus
  rs_provider :: "string option"
  rs_error :: "string option"
  rs_deliveryTime :: "int option"
  rs_cost :: "rat option"

record NotificationLog =
  l_id :: string
  l_type :: string
  l_recipient :: string
  l_template :: string
  l_status :: NotificationStatus
  l_messageId :: "string option"
  l_provider :: "string option"
  l_error :: "string option"
  l_cost :: "rat option"
  l_sentAt :: int
  l_deliveredAt :: "int option"
  l_retryCount :: nat
  l_metadata :: "js_object option"

record QuietHours =
  qh_start :: string
  qh_end :: string
  qh_timezone :: string

record NotificationPreferences =
  p_userId :: string
  p_email :: bool
  p_sms :: bool
  p_appointmentReminders :: bool
  p_satisfactionSurveys :: bool
  p_marketing :: bool
  p_timezone :: string
  p_language :: string
  p_quietHours :: "QuietHours option"

text \<open>
  \<^verbatim>\<open>Partial<NotificationPreferences>\<close>: \<open>None\<close> is a key that is absent. For the optional
  \<^verbatim>\<open>quietHours\<close>, \<open>Some None\<close> is the key present with the value \<^verbatim>\<open>undefined\<close>.
\<close>

record PartialPreferences =
  pp_userId :: "string option"
  pp_email :: "bool option"
  pp_sms :: "bool option"
  pp_appointmentReminders :: "bool option"
  pp_satisfactionSurveys :: "bool option"
  pp_marketing :: "bool option"
  pp_timezone :: "string option"
  pp_language :: "string option"
  pp_quietHours :: "QuietHours option option"

datatype audit_details =
    SendDetails string string string NotificationStatus "rat option"
  | ErrorDetails string

text \<open>\<^verbatim>\<open>Omit<AuditLogEntry, 'timestamp'>\<close>, as \<^verbatim>\<open>sendNotification\<close> fills it, and \<^verbatim>\<open>AuditLogEntry\<close>.\<close>

record AuditEvent =
  ev_userId :: "string option"
  ev_action :: string
  ev_resource :: string
  ev_details :: audit_details
  ev_success :: bool
  ev_errorMessage :: "string option"

record AuditLogEntry =
  a_timestamp :: string
  a_userId :: "string option"
  a_action :: string
  a_resource :: string
  a_details :: audit_details
  a_success :: bool
  a_errorMessage :: "string option"

text \<open>
  The module-level state: \<^verbatim>\<open>notificationLogs\<close>, \<^verbatim>\<open>notificationPreferences\<close> and the
  audit sink's \<^verbatim>\<open>AuditLogger.logs\<close>.
\<close>

record State =
  notificationLogs :: "NotificationLog list"
  notificationPreferences :: "string \<rightharpoonup> NotificationPreferences"
  auditLogs :: "AuditLogEntry list"

text \<open>
  What one call of \<^verbatim>\<open>sendNotification\<close> reads from the clock and the random generator, in
  the order of the reads: the local time of day in a time zone
  (\<^verbatim>\<open>toLocaleTimeString\<close>, which throws a \<^verbatim>\<open>RangeError\<close> for a time zone it does not know),
  the sample that decides a delivery failure, the time and random suffix of the message
  id, the delivery time, the time and random suffix of the log id, the send time and the
  audit timestamp.
\<close>

datatype js_error = Error string | RangeError string | TypeError string

fun message :: "js_error \<Rightarrow> string" where
  "message (Error m) = m"
| "message (RangeError m) = m"
| "message (TypeError m) = m"

record Env =
  e_localTime :: "string \<Rightarrow> js_error + string"
  e_random_fail :: rat
  e_now_msg :: int
  e_random_msg :: string
  e_deliveryTime :: int
  e_now_id :: int
  e_random_id :: string
  e_sentAt :: int
  e_audit_time :: string

section \<open>Configuration (NOTIFICATION_CONFIG, SECURITY_CONFIG)\<close>

definition sms_provider :: string where
  "sms_provider = ''mock''"

definition email_provider :: string where
  "email_provider = ''mock''"

definition AUDIT_LOG_ENABLED :: bool where
  "AUDIT_LOG_ENABLED = True"

definition satisfactionSurvey_sms :: string where
  "satisfactionSurvey_sms =
     ''Hi {{name}}, how was your visit with {{doctorName}}? Rate your'' @
     '' experience: {{surveyUrl}} Reply STOP to unsubscribe.''"

definition satisfactionSurvey_email_text :: string where
  "satisfactionSurvey_email_text =
     ''\<newline>          How was your visit?'' @
     ''\<newline>          '' @
     ''\<newline>          Hi {{name}},'' @
     ''\<newline>          '' @
     ''\<newline>          We hope your appointment with {{doctorName}} went well.'' @
     '' Your feedback helps us provide better care.'' @
     ''\<newline>          '' @
     ''\<newline>          Appointment Details:'' @
     ''\<newline>          - Date: {{appointmentDate}}'' @
     ''\<newline>          - Time: {{appointmentTime}}'' @
     ''\<newline>          - Location: {{location}}'' @
     ''\<newline>          '' @
     ''\<newline>          Rate your experience: {{surveyUrl}}'' @
     ''\<newline>          '' @
     ''\<newline>          Thank you for choosing GoTo Optical!'' @
     ''\<newline>        ''"

definition appointmentReminder_sms :: string where
  "appointmentReminder_sms =
     ''Reminder: You have an appointment with {{doctorName}} on'' @
     '' {{appointmentDate}} at {{appointmentTime}}. Location:'' @
     '' {{location}}. Reply STOP to unsubscribe.''"

definition appointmentReminder_email_text :: string where
  "appointmentReminder_email_text =
     ''\<newline>          Appointment Reminder'' @
     ''\<newline>          '' @
     ''\<newline>          Hi {{name}},'' @
     ''\<newline>          '' @
     ''\<newline>          This is a friendly reminder about your upcoming'' @
     '' appointment.'' @
     ''\<newline>          '' @
     ''\<newline>          Appointment Details:'' @
     ''\<newline>          - Date: {{appointmentDate}}'' @
     ''\<newline>          - Time: {{appointmentTime}}'' @
     ''\<newline>          - Doctor: {{doctorName}}'' @
     ''\<newline>          - Location: {{location}}'' @
     ''\<newline>          '' @
     ''\<newline>          Please arrive 15 minutes before your appointment time.'' @
     ''\<newline>          '' @
     ''\<newline>          If you need to reschedule, please call us at (555)'' @
     '' 123-4567.'' @
     ''\<newline>        ''"

definition appointmentConfirmation_sms :: string where
  "appointmentConfirmation_sms =
     ''Your appointment with {{doctorName}} has been confirmed for'' @
     '' {{appointmentDate}} at {{appointmentTime}}. Location:'' @
     '' {{location}}. Confirmation: {{appointmentId}}''"

definition appointmentConfirmation_email_text :: string where
  "appointmentConfirmation_email_text =
     ''\<newline>          Appointment Confirmed'' @
     ''\<newline>          '' @
     ''\<newline>          Hi {{name}},'' @
     ''\<newline>          '' @
     ''\<newline>          Your appointment has been successfully scheduled!'' @
     ''\<newline>          '' @
     ''\<newline>          Appointment Details:'' @
     ''\<newline>          - Date: {{appointmentDate}}'' @
     ''\<newline>          - Time: {{appointmentTime}}'' @
     ''\<newline>          - Doctor: {{doctorName}}'' @
     ''\<newline>          - Location: {{location}}'' @
     ''\<newline>          - Confirmation: {{appointmentId}}'' @
     ''\<newline>          '' @
     ''\<newline>          Please arrive 15 minutes before your appointment time.'' @
     ''\<newline>          '' @
     ''\<newline>          If you need to reschedule, please call us at (555)'' @
     '' 123-4567.'' @
     ''\<newline>        ''"

section \<open>Audit sink (lib/security.ts)\<close>

definition AuditLogger_log :: "string \<Rightarrow> AuditEvent \<Rightarrow> State \<Rightarrow> State" where
  "AuditLogger_log now entry st =
     (if \<not> AUDIT_LOG_ENABLED then st
      else st\<lparr>auditLogs := auditLogs st @
             [\<lparr>a_timestamp = now, a_userId = ev_userId entry, a_action = ev_action entry,
               a_resource = ev_resource entry, a_details = ev_details entry,
               a_success = ev_success entry, a_errorMessage = ev_errorMessage entry\<rparr>]\<rparr>)"

section \<open>NotificationService (lib/notifications.ts)\<close>

text \<open>A string-valued optional field is truthy when it is present and not empty.\<close>

fun truthy_str :: "string option \<Rightarrow> bool" where
  "truthy_str None = False"
| "truthy_str (Some s) = (s \<noteq> [])"

fun join :: "string \<Rightarrow> string list \<Rightarrow> string" where
  "join sep [] = []"
| "join sep [x] = x"
| "join sep (x # y # ys) = x @ sep @ join sep (y # ys)"

definition validateRequest :: "NotificationRequest \<Rightarrow> bool \<times> string list" where
  "validateRequest request =
     (let errors =
        (if q_type request = [] \<or> q_type request \<notin> set [''sms'', ''email'']
         then [''Invalid notification type''] else [])
        @ (if q_type request = ''sms'' \<and> \<not> truthy_str (r_phone (q_recipient request))
           then [''Phone number required for SMS notifications''] else [])
        @ (if q_type request = ''email'' \<and> \<not> truthy_str (r_email (q_recipient request))
           then [''Email address required for email notifications''] else [])
        @ (if q_template request = [] \<or> q_template request \<notin>
                set [''satisfactionSurvey'', ''appointmentReminder'', ''appointmentConfirmation'']
           then [''Invalid template''] else [])
        @ (if q_data request = None then [''Notification data required''] else [])
      in (errors = [], errors))"

text \<open>
  \<^verbatim>\<open>config.templates[templateName]\<close> is \<^verbatim>\<open>undefined\<close> for an unknown name, and reading
  a property of it throws.
\<close>

definition getTemplate :: "string \<Rightarrow> string \<Rightarrow> js_error + string" where
  "getTemplate templateName type =
     (if templateName = ''satisfactionSurvey'' then
        Inr (if type = ''sms'' then satisfactionSurvey_sms else satisfactionSurvey_email_text)
      else if templateName = ''appointmentReminder'' then
        Inr (if type = ''sms'' then appointmentReminder_sms else appointmentReminder_email_text)
      else if templateName = ''appointmentConfirmation'' then
        Inr (if type = ''sms'' then appointmentConfirmation_sms
             else appointmentConfirmation_email_text)
      else Inl (TypeError ''Cannot read properties of undefined''))"

text \<open>The simulated providers ignore the address and the content.\<close>

definition sendSMS :: "Env \<Rightarrow> string option \<Rightarrow> string \<Rightarrow> NotificationResponse" where
  "sendSMS env phone content =
     (if e_random_fail env < 5 / 100 then
        \<lparr>rs_success = False, rs_messageId = None, rs_status = Failed,
         rs_provider = Some sms_provider, rs_error = Some ''SMS delivery failed'',
         rs_deliveryTime = None, rs_cost = None\<rparr>
      else
        \<lparr>rs_success = True,
         rs_messageId = Some (''sms_'' @ show_int (e_now_msg env) @ ''_'' @ e_random_msg env),
         rs_status = Sent, rs_provider = Some sms_provider, rs_error = None,
         rs_deliveryTime = Some (e_deliveryTime env), rs_cost = Some (1 / 100)\<rparr>)"

definition sendEmail :: "Env \<Rightarrow> string option \<Rightarrow> string \<Rightarrow> string \<Rightarrow> NotificationResponse" where
  "sendEmail env email content templateName =
     (if e_random_fail env < 3 / 100 then
        \<lparr>rs_success = False, rs_messageId = None, rs_status = Failed,
         rs_provider = Some email_provider, rs_error = Some ''Email delivery failed'',
         rs_deliveryTime = None, rs_cost = None\<rparr>
      else
        \<lparr>rs_success = True,
         rs_messageId = Some (''email_'' @ show_int (e_now_msg env) @ ''_'' @ e_random_msg env),
         rs_status = Sent, rs_provider = Some email_provider, rs_error = None,
         rs_deliveryTime = Some (e_deliveryTime env), rs_cost = Some (1 / 1000)\<rparr>)"

definition defaultPreferences :: "string \<Rightarrow> NotificationPreferences" where
  "defaultPreferences userId =
     \<lparr>p_userId = userId, p_email = True, p_sms = True, p_appointmentReminders = True,
      p_satisfactionSurveys = True, p_marketing = False, p_timezone = ''America/New_York'',
      p_language = ''en'', p_quietHours = None\<rparr>"

definition getUserPreferences :: "string \<Rightarrow> State \<Rightarrow> NotificationPreferences" where
  "getUserPreferences userId st =
     (case notificationPreferences st userId of
        Some stored \<Rightarrow> stored
      | None \<Rightarrow> defaultPreferences userId)"

text \<open>
  The preference gate. Strings are compared as JavaScript compares them, by code units in
  lexicographic order. \<open>Inl\<close> is the exception of \<^verbatim>\<open>toLocaleTimeString\<close>.
\<close>

definition shouldSendNotification ::
    "Env \<Rightarrow> NotificationRequest \<Rightarrow> NotificationPreferences \<Rightarrow> js_error + bool" where
  "shouldSendNotification env request preferences =
     (if q_type request = ''email'' \<and> \<not> p_email preferences then Inr False
      else if q_type request = ''sms'' \<and> \<not> p_sms preferences then Inr False
      else if q_template request = ''satisfactionSurvey'' \<and> \<not> p_satisfactionSurveys preferences
        then Inr False
      else if q_template request = ''appointmentReminder'' \<and> \<not> p_appointmentReminders preferences
        then Inr False
      else
        (case p_quietHours preferences of
           None \<Rightarrow> Inr True
         | Some quiet \<Rightarrow>
             (case e_localTime env (qh_timezone quiet) of
                Inl e \<Rightarrow> Inl e
              | Inr currentTime \<Rightarrow>
                  if currentTime \<ge> qh_start quiet \<and> currentTime \<le> qh_end quiet
                  then Inr False else Inr True)))"

text \<open>\<^verbatim>\<open>request.recipient.email || request.recipient.phone || ''\<close>\<close>

fun str_or :: "string option \<Rightarrow> string \<Rightarrow> string" where
  "str_or None other = other"
| "str_or (Some s) other = (if s \<noteq> [] then s else other)"

definition recipient_key :: "NotificationRequest \<Rightarrow> string" where
  "recipient_key request =
     str_or (r_email (q_recipient request)) (str_or (r_phone (q_recipient request)) [])"

definition blocked_response :: NotificationResponse where
  "blocked_response =
     \<lparr>rs_success = False, rs_messageId = None, rs_status = Failed, rs_provider = None,
      rs_error = Some ''Notification blocked by user preferences'',
      rs_deliveryTime = None, rs_cost = None\<rparr>"

definition metadata_of :: "NotificationRequest \<Rightarrow> js_object \<Rightarrow> js_object" where
  "metadata_of request data =
     plain_object
       [''appointmentId'' \<mapsto> js_get data ''appointmentId'',
        ''doctorName'' \<mapsto> js_get data ''doctorName'',
        ''priority'' \<mapsto> (case q_priority request of None \<Rightarrow> Undefined | Some pr \<Rightarrow> Str pr)]"

text \<open>
  The body of the \<^verbatim>\<open>try\<close> block of \<^verbatim>\<open>sendNotification\<close>; \<open>Inl\<close> is a thrown exception. Every
  throw comes before the first write to the state, so the handler sees the state of the
  call's start.
\<close>

definition sendNotification_try ::
    "Env \<Rightarrow> NotificationRequest \<Rightarrow> State \<Rightarrow> js_error + (NotificationResponse \<times> State)" where
  "sendNotification_try env request st =
     (let validation = validateRequest request in
      if \<not> fst validation then
        Inl (Error (''Invalid notification request: '' @ join '', '' (snd validation)))
      else
        let preferences = getUserPreferences (recipient_key request) st in
        case shouldSendNotification env request preferences of
          Inl e \<Rightarrow> Inl e
        | Inr False \<Rightarrow> Inr (blocked_response, st)
        | Inr True \<Rightarrow>
            (case getTemplate (q_template request) (q_type request) of
               Inl e \<Rightarrow> Inl e
             | Inr template \<Rightarrow>
                 (case q_data request of
                    None \<Rightarrow> Inl (TypeError ''Cannot read properties of undefined'')
                  | Some data \<Rightarrow>
                      let content = replaceTemplateVariables template data;
                          response =
                            (if q_type request = ''sms''
                             then sendSMS env (r_phone (q_recipient request)) content
                             else sendEmail env (r_email (q_recipient request)) content
                                    (q_template request));
                          logEntry =
                            \<lparr>l_id = ''notification_'' @ show_int (e_now_id env) @ ''_''
                                      @ e_random_id env,
                             l_type = q_type request,
                             l_recipient = recipient_key request,
                             l_template = q_template request,
                             l_status = rs_status response,
                             l_messageId = rs_messageId response,
                             l_provider = rs_provider response,
                             l_error = rs_error response,
                             l_cost = rs_cost response,
                             l_sentAt = e_sentAt env,
                             l_deliveredAt = None,
                             l_retryCount = 0,
                             l_metadata = Some (metadata_of request data)\<rparr>;
                          st1 = st\<lparr>notificationLogs := notificationLogs st @ [logEntry]\<rparr>;
                          st2 = AuditLogger_log (e_audit_time env)
                                  \<lparr>ev_userId = Some ''system'',
                                   ev_action = ''SEND_NOTIFICATION'',
                                   ev_resource = ''/api/notifications/'' @ q_type request,
                                   ev_details = SendDetails (l_id logEntry) (l_recipient logEntry)
                                     (q_template request) (rs_status response) (rs_cost response),
                                   ev_success = rs_success response,
                                   ev_errorMessage = rs_error response\<rparr> st1
                      in Inr (response, st2))))"

definition sendNotification ::
    "Env \<Rightarrow> NotificationRequest \<Rightarrow> State \<Rightarrow> NotificationResponse \<times> State" where
  "sendNotification env request st =
     (case sendNotification_try env request st of
        Inr result \<Rightarrow> result
      | Inl error \<Rightarrow>
          let errorResponse =
                \<lparr>rs_success = False, rs_messageId = None, rs_status = Failed,
                 rs_provider = None, rs_error = Some (message error),
                 rs_deliveryTime = None, rs_cost = None\<rparr>
          in (errorResponse,
              AuditLogger_log (e_audit_time env)
                \<lparr>ev_userId = Some ''system'',
                 ev_action = ''SEND_NOTIFICATION'',
                 ev_resource = ''/api/notifications/'' @ q_type request,
                 ev_details = ErrorDetails (message error),
                 ev_success = False,
                 ev_errorMessage = rs_error errorResponse\<rparr> st))"

text \<open>
  \<^verbatim>\<open>Array.prototype.slice(start, end)\<close> on integer arguments: a negative index counts from
  the end, and both are clamped to the array.
\<close>

definition js_slice :: "int \<Rightarrow> int \<Rightarrow> 'a list \<Rightarrow> 'a list" where
  "js_slice start fin xs =
     (let len = int (length xs);
          k = (if start < 0 then max (len + start) 0 else min start len);
          final = (if fin < 0 then max (len + fin) 0 else min fin len)
      in take (nat (final - k)) (drop (nat k) xs))"

text \<open>
  \<^verbatim>\<open>getNotificationLogs(limit, offset)\<close>. \<^verbatim>\<open>Array.prototype.sort\<close> sorts the array it is
  called on, in place and stably, and returns that array; the comparator orders by
  \<^verbatim>\<open>sentAt\<close>, latest first. The result is the slice and the state with the sorted array.
\<close>

definition getNotificationLogs :: "int \<Rightarrow> int \<Rightarrow> State \<Rightarrow> NotificationLog list \<times> State" where
  "getNotificationLogs limit offset st =
     (let sorted_logs = sort_key (\<lambda>log. - l_sentAt log) (notificationLogs st)
      in (js_slice offset (offset + limit) sorted_logs,
          st\<lparr>notificationLogs := sorted_logs\<rparr>))"

record Stats =
  total :: nat
  successful :: nat
  failed :: nat
  pending :: nat
  totalCost :: rat
  byType_sms :: nat
  byType_email :: nat
  byTemplate_satisfactionSurvey :: nat
  byTemplate_appointmentReminder :: nat
  byTemplate_appointmentConfirmation :: nat

definition getNotificationStats :: "State \<Rightarrow> Stats" where
  "getNotificationStats st =
     (let logs = notificationLogs st in
      \<lparr>total = length logs,
       successful = length (filter (\<lambda>log. l_status log = Sent \<or> l_status log = Delivered) logs),
       failed = length (filter (\<lambda>log. l_status log = Failed) logs),
       pending = length (filter (\<lambda>log. l_status log = Pending) logs),
       totalCost = foldl (\<lambda>sum log. sum + (case l_cost log of None \<Rightarrow> 0 | Some c \<Rightarrow> c)) 0 logs,
       byType_sms = length (filter (\<lambda>log. l_type log = ''sms'') logs),
       byType_email = length (filter (\<lambda>log. l_type log = ''email'') logs),
       byTemplate_satisfactionSurvey =
         length (filter (\<lambda>log. l_template log = ''satisfactionSurvey'') logs),
       byTemplate_appointmentReminder =
         length (filter (\<lambda>log. l_template log = ''appointmentReminder'') logs),
       byTemplate_appointmentConfirmation =
         length (filter (\<lambda>log. l_template log = ''appointmentConfirmation'') logs)\<rparr>)"

text \<open>
  \<^verbatim>\<open>updateUserPreferences\<close>: \<^verbatim>\<open>{ ...existing, ...preferences, userId }\<close>, stored under
  \<^verbatim>\<open>userId\<close>.
\<close>

definition merge_preferences ::
    "NotificationPreferences \<Rightarrow> PartialPreferences \<Rightarrow> string \<Rightarrow> NotificationPreferences" where
  "merge_preferences existing preferences userId =
     \<lparr>p_userId = userId,
      p_email = (case pp_email preferences of None \<Rightarrow> p_email existing | Some v \<Rightarrow> v),
      p_sms = (case pp_sms preferences of None \<Rightarrow> p_sms existing | Some v \<Rightarrow> v),
      p_appointmentReminders =
        (case pp_appointmentReminders preferences of
           None \<Rightarrow> p_appointmentReminders existing | Some v \<Rightarrow> v),
      p_satisfactionSurveys =
        (case pp_satisfactionSurveys preferences of
           None \<Rightarrow> p_satisfactionSurveys existing | Some v \<Rightarrow> v),
      p_marketing = (case pp_marketing preferences of None \<Rightarrow> p_marketing existing | Some v \<Rightarrow> v),
      p_timezone = (case pp_timezone preferences of None \<Rightarrow> p_timezone existing | Some v \<Rightarrow> v),
      p_language = (case pp_language preferences of None \<Rightarrow> p_language existing | Some v \<Rightarrow> v),
      p_quietHours =
        (case pp_quietHours preferences of None \<Rightarrow> p_quietHours existing | Some v \<Rightarrow> v)\<rparr>"

definition updateUserPreferences :: "string \<Rightarrow> PartialPreferences \<Rightarrow> State \<Rightarrow> State" where
  "updateUserPreferences userId preferences st =
     (let existing = getUserPreferences userId st;
          updated = merge_preferences existing preferences userId
      in st\<lparr>notificationPreferences := (notificationPreferences st)(userId \<mapsto> updated)\<rparr>)"

text \<open>
  \<^verbatim>\<open>retryFailedNotifications\<close>. \<^verbatim>\<open>failedLogs\<close> holds references to the selected entries of
  \<^verbatim>\<open>notificationLogs\<close>; here it holds their positions, which stay valid because the loop
  only appends to the array. The calls run one after the other; the \<open>k\<close>-th call of
  \<^verbatim>\<open>sendNotification\<close> reads \<open>envs k\<close>. \<^verbatim>\<open>sendNotification\<close> catches every exception itself,
  so the loop's own handler is never entered.
\<close>

definition failedLogs :: "State \<Rightarrow> nat list" where
  "failedLogs st =
     filter (\<lambda>i. l_status (notificationLogs st ! i) = Failed
                \<and> l_retryCount (notificationLogs st ! i) < 3)
       [0 ..< length (notificationLogs st)]"

definition retry_request :: "NotificationLog \<Rightarrow> NotificationRequest" where
  "retry_request entry =
     \<lparr>q_type = l_type entry,
      q_recipient =
        (if l_type entry = ''sms''
         then \<lparr>r_phone = Some (l_recipient entry), r_email = None, r_name = None\<rparr>
         else \<lparr>r_phone = None, r_email = Some (l_recipient entry), r_name = None\<rparr>),
      q_template = l_template entry,
      q_data = Some (case l_metadata entry of None \<Rightarrow> plain_object Map.empty | Some m \<Rightarrow> m),
      q_priority = None\<rparr>"

text \<open>One turn of the loop, for the entry at position \<open>i\<close>, with the counter.\<close>

definition retry_one :: "Env \<Rightarrow> nat \<Rightarrow> nat \<times> State \<Rightarrow> nat \<times> State" where
  "retry_one env i acc =
     (let retryCount = fst acc;
          st = snd acc;
          entry = notificationLogs st ! i;
          result = sendNotification env (retry_request entry) st;
          response = fst result;
          st1 = snd result
      in if rs_success response
         then (retryCount + 1,
               st1\<lparr>notificationLogs := (notificationLogs st1)
                      [i := (notificationLogs st1 ! i)
                              \<lparr>l_status := Sent,
                               l_retryCount := l_retryCount (notificationLogs st1 ! i) + 1\<rparr>]\<rparr>)
         else (retryCount, st1))"

fun retry_loop :: "(nat \<Rightarrow> Env) \<Rightarrow> nat \<Rightarrow> nat list \<Rightarrow> nat \<times> State \<Rightarrow> nat \<times> State" where
  "retry_loop envs k [] acc = acc"
| "retry_loop envs k (i # rest) acc = retry_loop envs (Suc k) rest (retry_one (envs k) i acc)"

definition retryFailedNotifications :: "(nat \<Rightarrow> Env) \<Rightarrow> State \<Rightarrow> nat \<times> State" where
  "retryFailedNotifications envs st = retry_loop envs 0 (failedLogs st) (0, st)"

text \<open>What a successful retry writes to the original entry, for use in the proofs.\<close>

definition upgraded :: "NotificationLog \<Rightarrow> NotificationLog" where
  "upgraded entry = entry\<lparr>l_status := Sent, l_retryCount := l_retryCount entry + 1\<rparr>"

text \<open>
  For the \<open>p\<close>-th turn of the retry loop, on the entry at position \<open>i\<close>: whether the send
  that the turn issues succeeds, the log entries it appends and the audit events it emits,
  each taken in a given state. Vocabulary of the proofs.
\<close>

definition turn_ok :: "(nat \<Rightarrow> Env) \<Rightarrow> State \<Rightarrow> nat \<times> nat \<Rightarrow> bool" where
  "turn_ok envs st =
     (\<lambda>(p, i). rs_success (fst (sendNotification (envs p)
                                (retry_request (notificationLogs st ! i)) st)))"

definition turn_rows :: "(nat \<Rightarrow> Env) \<Rightarrow> State \<Rightarrow> nat \<times> nat \<Rightarrow> NotificationLog list" where
  "turn_rows envs st =
     (\<lambda>(p, i). drop (length (notificationLogs st))
                 (notificationLogs (snd (sendNotification (envs p)
                                           (retry_request (notificationLogs st ! i)) st))))"

definition turn_events :: "(nat \<Rightarrow> Env) \<Rightarrow> State \<Rightarrow> nat \<times> nat \<Rightarrow> AuditLogEntry list" where
  "turn_events envs st =
     (\<lambda>(p, i). drop (length (auditLogs st))
                 (auditLogs (snd (sendNotification (envs p)
                                    (retry_request (notificationLogs st ! i)) st))))"

text \<open>
  The states the service can be in: it starts with empty collections, and every operation
  leads from a state to a state, whatever the clock and the random generator give.
\<close>

inductive reachable :: "State \<Rightarrow> bool" where
  start: "reachable \<lparr>notificationLogs = [], notificationPreferences = Map.empty, auditLogs = []\<rparr>"
| send: "reachable st \<Longrightarrow> reachable (snd (sendNotification env request st))"
| retry: "reachable st \<Longrightarrow> reachable (snd (retryFailedNotifications envs st))"
| logs: "reachable st \<Longrightarrow> reachable (snd (getNotificationLogs limit offset st))"
| update: "reachable st \<Longrightarrow> reachable (updateUserPreferences userId preferences st)"

section \<open>Example inputs\<close>

definition quiet_night :: QuietHours where
  "quiet_night = \<lparr>qh_start = ''22:00'', qh_end = ''06:00'', qh_timezone = ''America/New_York''\<rparr>"

definition env_night :: Env where
  "env_night =
     \<lparr>e_localTime = (\<lambda>tz. Inr ''23:30:00''), e_random_fail = 1 / 2, e_now_msg = 1001,
      e_random_msg = ''k3j9x2'', e_deliveryTime = 1002, e_now_id = 1003,
      e_random_id = ''a1b2c3d4e'', e_sentAt = 1004, e_audit_time = ''1970-01-01T00:00:01.005Z''\<rparr>"

definition req_sms_reminder :: NotificationRequest where
  "req_sms_reminder =
     \<lparr>q_type = ''sms'',
      q_recipient = \<lparr>r_phone = Some ''+15551234567'', r_email = None, r_name = None\<rparr>,
      q_template = ''appointmentReminder'', q_data = Some (plain_object Map.empty), q_priority = None\<rparr>"

definition initial_state :: State where
  "initial_state = \<lparr>notificationLogs = [], notificationPreferences = Map.empty, auditLogs = []\<rparr>"

definition partial_sms_off :: PartialPreferences where
  "partial_sms_off =
     \<lparr>pp_userId = Some ''someone-else'', pp_email = None, pp_sms = Some False,
      pp_appointmentReminders = None, pp_satisfactionSurveys = None, pp_marketing = None,
      pp_timezone = None, pp_language = None, pp_quietHours = None\<rparr>"

definition req_sms_no_phone :: NotificationRequest where
  "req_sms_no_phone =
     \<lparr>q_type = ''sms'',
      q_recipient = \<lparr>r_phone = None, r_email = None, r_name = None\<rparr>,
      q_template = ''satisfactionSurvey'', q_data = Some (plain_object Map.empty), q_priority = None\<rparr>"

definition prefs_sms_off :: NotificationPreferences where
  "prefs_sms_off =
     \<lparr>p_userId = ''+15551234567'', p_email = True, p_sms = False,
      p_appointmentReminders = True, p_satisfactionSurveys = True, p_marketing = False,
      p_timezone = ''America/New_York'', p_language = ''en'', p_quietHours = None\<rparr>"

definition state_sms_off :: State where
  "state_sms_off =
     \<lparr>notificationLogs = [],
      notificationPreferences = [''+15551234567'' \<mapsto> prefs_sms_off],
      auditLogs = []\<rparr>"

definition envs_night :: "nat \<Rightarrow> Env" where
  "envs_night k = env_night"

section \<open>Example log states\<close>

definition log_older :: NotificationLog where
  "log_older =
     \<lparr>l_id = ''notification_1000_aaaaaaaaa'', l_type = ''sms'', l_recipient = ''+15551234567'',
      l_template = ''appointmentReminder'', l_status = Sent,
      l_messageId = Some ''sms_1000_aaaaaa'', l_provider = Some ''mock'', l_error = None,
      l_cost = Some (1 / 100), l_sentAt = 1000, l_deliveredAt = None, l_retryCount = 0,
      l_metadata = None\<rparr>"

definition log_newer :: NotificationLog where
  "log_newer =
     \<lparr>l_id = ''notification_2000_bbbbbbbbb'', l_type = ''email'', l_recipient = ''a@b.com'',
      l_template = ''appointmentConfirmation'', l_status = Sent,
      l_messageId = Some ''email_2000_bbbbbb'', l_provider = Some ''mock'', l_error = None,
      l_cost = Some (1 / 1000), l_sentAt = 2000, l_deliveredAt = None, l_retryCount = 0,
      l_metadata = None\<rparr>"

definition state_two_logs :: State where
  "state_two_logs =
     \<lparr>notificationLogs = [log_older, log_newer], notificationPreferences = Map.empty,
      auditLogs = []\<rparr>"

definition log_failed :: NotificationLog where
  "log_failed =
     \<lparr>l_id = ''notification_500_ccccccccc'', l_type = ''sms'', l_recipient = ''+15551234567'',
      l_template = ''appointmentReminder'', l_status = Failed,
      l_messageId = None, l_provider = Some ''mock'', l_error = Some ''SMS delivery failed'',
      l_cost = None, l_sentAt = 500, l_deliveredAt = None, l_retryCount = 0,
      l_metadata = None\<rparr>"

definition log_exhausted :: NotificationLog where
  "log_exhausted =
     \<lparr>l_id = ''notification_400_ddddddddd'', l_type = ''sms'', l_recipient = ''+15557654321'',
      l_template = ''appointmentReminder'', l_status = Failed,
      l_messageId = None, l_provider = Some ''mock'', l_error = Some ''SMS delivery failed'',
      l_cost = None, l_sentAt = 400, l_deliveredAt = None, l_retryCount = 3,
      l_metadata = None\<rparr>"

definition state_failed :: State where
  "state_failed =
     \<lparr>notificationLogs = [log_failed, log_exhausted], notificationPreferences = Map.empty,
      auditLogs = []\<rparr>"

section \<open>Template engine: results\<close>

lemma match_here_source:
  "match_here s = Some (v, rest) \<Longrightarrow> s = ''{{'' @ v @ ''}}'' @ rest"
proof -
  assume m: "match_here s = Some (v, rest)"
  let ?t = "drop 2 s"
  let ?r = "dropWhile (\<lambda>c. c \<noteq> CHR ''}'') ?t"
  from m have h: "take 2 s = ''{{''" and v: "v = takeWhile (\<lambda>c. c \<noteq> CHR ''}'') ?t"
    and e: "take 2 ?r = ''}}''" and r: "rest = drop 2 ?r"
    by (auto simp: match_here_def Let_def split: if_splits)
  have "s = take 2 s @ ?t" by simp
  also have "?t = v @ ?r" using v by simp
  also have "?r = take 2 ?r @ rest" using r by simp
  finally show ?thesis using h e by simp
qed

lemma segments_source: "concat (map segment_source (segments t)) = t"
proof (induction t rule: segments.induct)
  case 1
  show ?case by simp
next
  case (2 c cs)
  show ?case
  proof (cases "match_here (c # cs)")
    case None
    with 2 show ?thesis by simp
  next
    case (Some p)
    obtain v rest where p: "p = (v, rest)" by (cases p)
    from Some p have "c # cs = ''{{'' @ v @ ''}}'' @ rest"
      using match_here_source by blast
    moreover have "concat (map segment_source (segments rest)) = rest"
      by (rule 2(2) [OF Some]) (simp add: p)
    ultimately show ?thesis using Some p by simp
  qed
qed

lemma replace_segments:
  "replaceTemplateVariables t d = concat (map (render_segment d) (segments t))"
proof (induction t rule: segments.induct)
  case 1
  show ?case by (simp add: replaceTemplateVariables_def)
next
  case (2 c cs)
  show ?case
  proof (cases "match_here (c # cs)")
    case None
    with 2 show ?thesis by (simp add: replaceTemplateVariables_def)
  next
    case (Some p)
    obtain v rest where p: "p = (v, rest)" by (cases p)
    have "replaceTemplateVariables rest d = concat (map (render_segment d) (segments rest))"
      by (rule 2(2) [OF Some]) (simp add: p)
    then show ?thesis using Some p
      by (simp add: replaceTemplateVariables_def)
  qed
qed

lemma render_segment_rendered: "rendered d seg (render_segment d seg)"
  by (cases seg) (auto simp: js_get_def split: option.splits)

text \<open>
  A name that the data bag only inherits is found by the property read, and the function
  it names is written into the output: this is how the code treats \<^verbatim>\<open>{{constructor}}\<close>
  with an empty data bag, a placeholder whose key is absent from the data.
\<close>

lemma replaceTemplateVariables_inherited_name:
  "replaceTemplateVariables ''{{constructor}}'' (plain_object Map.empty)
   = ''function Object() { [native code] }''"
  by (simp add: replaceTemplateVariables_def match_here_def js_get_def plain_object_def
      Object_prototype_def)

text \<open>
  C1 (as stated, refuted): a placeholder whose key is present with the value \<open>0\<close>, which is
  neither \<^verbatim>\<open>null\<close> nor \<^verbatim>\<open>undefined\<close>, is not replaced by the string \<open>0\<close>; it stays in the
  output with its braces.
\<close>

theorem replaceTemplateVariables_zero_counterexample:
  "own_props data_zero ''count'' = Some (Num ''0'')
   \<and> to_string (Num ''0'') = ''0''
   \<and> replaceTemplateVariables ''{{count}}'' data_zero = ''{{count}}''
   \<and> replaceTemplateVariables ''{{count}}'' data_zero \<noteq> to_string (Num ''0'')"
  by (simp add: data_zero_def plain_object_def replaceTemplateVariables_def match_here_def
      js_get_def)

text \<open>
  C1 (amended): the output is made of one piece for each segment of the template, in
  order. Text between placeholders is copied. A placeholder whose name is an own key of
  the data bag is replaced by the string form of the value when the value is truthy, and
  left verbatim, braces included, when the value is falsy (\<^verbatim>\<open>undefined\<close>, \<^verbatim>\<open>null\<close>,
  \<^verbatim>\<open>false\<close>, \<open>0\<close>, \<open>NaN\<close>, the empty string). A placeholder whose name is neither an own key
  nor a property the data bag inherits is left verbatim. Nothing is said of a name that is
  inherited only. The segments are a decomposition of the template itself.
\<close>

theorem replaceTemplateVariables_policy:
  "(\<exists>pieces. list_all2 (rendered d) (segments t) pieces
       \<and> replaceTemplateVariables t d = concat pieces)
   \<and> concat (map segment_source (segments t)) = t"
proof -
  have "list_all2 (rendered d) (segments t) (map (render_segment d) (segments t))"
    by (simp add: list_all2_map2 list_all2_same render_segment_rendered)
  then show ?thesis
    using replace_segments segments_source by blast
qed

theorem replaceTemplateVariables_policy_witness:
  "replaceTemplateVariables ''{{name}} {{visits}} {{doctorName}}'' data_john
     = ''John Doe {{visits}} {{doctorName}}''"
proof -
  have s: "segments ''{{name}} {{visits}} {{doctorName}}''
    = [Placeholder ''name'', Text CHR '' '', Placeholder ''visits'', Text CHR '' '',
       Placeholder ''doctorName'']"
    by (simp add: match_here_def)
  from replaceTemplateVariables_policy [of data_john "''{{name}} {{visits}} {{doctorName}}''"]
  obtain pieces
    where a: "list_all2 (rendered data_john) (segments ''{{name}} {{visits}} {{doctorName}}'') pieces"
      and r: "replaceTemplateVariables ''{{name}} {{visits}} {{doctorName}}'' data_john
              = concat pieces"
    by blast
  from a have "pieces = [''John Doe'', '' '', ''{{visits}}'', '' '', ''{{doctorName}}'']"
    unfolding s
    by (auto simp: list_all2_Cons1 data_john_def plain_object_def Object_prototype_def)
  with r show ?thesis by simp
qed

section \<open>Preference gate: results\<close>

text \<open>
  C7: when the quiet-hours window crosses midnight (its start is greater than its end in
  string order, as with 22:00 to 06:00), no current time lies in the window: whatever time
  of day the clock reports, the gate decides as it would without quiet hours, and a denial
  is never due to the quiet-hours rule.
\<close>

theorem quiet_hours_crossing_midnight_never_denies:
  assumes "qh_end quiet < qh_start quiet"
  shows "(e_localTime env (qh_timezone quiet) = Inr currentTime \<longrightarrow>
            shouldSendNotification env request (preferences\<lparr>p_quietHours := Some quiet\<rparr>)
            = shouldSendNotification env request (preferences\<lparr>p_quietHours := None\<rparr>))
       \<and> (shouldSendNotification env request (preferences\<lparr>p_quietHours := Some quiet\<rparr>) = Inr False \<longrightarrow>
            shouldSendNotification env request (preferences\<lparr>p_quietHours := None\<rparr>) = Inr False)"
proof -
  have window: "\<not> (t \<ge> qh_start quiet \<and> t \<le> qh_end quiet)" for t
    using assms by auto
  show ?thesis
    by (auto simp: shouldSendNotification_def window split: sum.splits)
qed

theorem quiet_hours_crossing_midnight_never_denies_witness:
  "qh_end quiet_night < qh_start quiet_night
   \<and> e_localTime env_night (qh_timezone quiet_night) = Inr ''23:30:00''
   \<and> shouldSendNotification env_night req_sms_reminder
        ((defaultPreferences ''+15551234567'')\<lparr>p_quietHours := Some quiet_night\<rparr>) = Inr True"
proof -
  have h: "qh_end quiet_night < qh_start quiet_night"
    by (simp add: quiet_night_def)
  have t: "e_localTime env_night (qh_timezone quiet_night) = Inr ''23:30:00''"
    by (simp add: env_night_def)
  have n: "shouldSendNotification env_night req_sms_reminder
        ((defaultPreferences ''+15551234567'')\<lparr>p_quietHours := None\<rparr>) = Inr True"
    by (simp add: shouldSendNotification_def req_sms_reminder_def defaultPreferences_def)
  show ?thesis
    using quiet_hours_crossing_midnight_never_denies
      [OF h, of env_night "''23:30:00''" req_sms_reminder "defaultPreferences ''+15551234567''"]
      h t n by simp
qed

section \<open>Preferences store: results\<close>

text \<open>
  C10: after \<^verbatim>\<open>updateUserPreferences(k, p)\<close>, \<^verbatim>\<open>getUserPreferences(k)\<close> returns a record whose
  \<^verbatim>\<open>userId\<close> is \<open>k\<close>, whatever \<^verbatim>\<open>userId\<close> the partial record \<open>p\<close> carries, and every field
  absent from \<open>p\<close> has the value that \<^verbatim>\<open>getUserPreferences(k)\<close> returned before the update
  (the stored record, or the defaults when none was stored).
\<close>

theorem updateUserPreferences_then_get:
  "p_userId (getUserPreferences k (updateUserPreferences k p st)) = k
   \<and> (pp_email p = None \<longrightarrow>
        p_email (getUserPreferences k (updateUserPreferences k p st))
        = p_email (getUserPreferences k st))
   \<and> (pp_sms p = None \<longrightarrow>
        p_sms (getUserPreferences k (updateUserPreferences k p st))
        = p_sms (getUserPreferences k st))
   \<and> (pp_appointmentReminders p = None \<longrightarrow>
        p_appointmentReminders (getUserPreferences k (updateUserPreferences k p st))
        = p_appointmentReminders (getUserPreferences k st))
   \<and> (pp_satisfactionSurveys p = None \<longrightarrow>
        p_satisfactionSurveys (getUserPreferences k (updateUserPreferences k p st))
        = p_satisfactionSurveys (getUserPreferences k st))
   \<and> (pp_marketing p = None \<longrightarrow>
        p_marketing (getUserPreferences k (updateUserPreferences k p st))
        = p_marketing (getUserPreferences k st))
   \<and> (pp_timezone p = None \<longrightarrow>
        p_timezone (getUserPreferences k (updateUserPreferences k p st))
        = p_timezone (getUserPreferences k st))
   \<and> (pp_language p = None \<longrightarrow>
        p_language (getUserPreferences k (updateUserPreferences k p st))
        = p_language (getUserPreferences k st))
   \<and> (pp_quietHours p = None \<longrightarrow>
        p_quietHours (getUserPreferences k (updateUserPreferences k p st))
        = p_quietHours (getUserPreferences k st))"
proof -
  have g: "getUserPreferences k (updateUserPreferences k p st)
           = merge_preferences (getUserPreferences k st) p k"
    by (simp add: getUserPreferences_def updateUserPreferences_def Let_def)
  show ?thesis
    unfolding g by (simp add: merge_preferences_def)
qed

theorem updateUserPreferences_then_get_witness:
  "pp_email partial_sms_off = None
   \<and> p_userId (getUserPreferences ''a@b.com''
        (updateUserPreferences ''a@b.com'' partial_sms_off initial_state)) = ''a@b.com''
   \<and> p_email (getUserPreferences ''a@b.com''
        (updateUserPreferences ''a@b.com'' partial_sms_off initial_state)) = True"
proof -
  have h: "pp_email partial_sms_off = None"
    by (simp add: partial_sms_off_def)
  have b: "p_email (getUserPreferences ''a@b.com'' initial_state) = True"
    by (simp add: getUserPreferences_def initial_state_def defaultPreferences_def)
  show ?thesis
    using updateUserPreferences_then_get [of "''a@b.com''" partial_sms_off initial_state] h b
    by simp
qed

section \<open>Dispatch: results\<close>

lemma join_mentions:
  "x \<in> set xs \<Longrightarrow> \<exists>pre post. join sep xs = pre @ x @ post"
proof (induction sep xs rule: join.induct)
  case (1 sep)
  then show ?case by simp
next
  case (2 sep y)
  then have "join sep [y] = [] @ x @ []" by simp
  then show ?case by blast
next
  case (3 sep y z zs)
  show ?case
  proof (cases "x = y")
    case True
    then have "join sep (y # z # zs) = [] @ x @ (sep @ join sep (z # zs))" by simp
    then show ?thesis by blast
  next
    case False
    with 3 obtain pre post where "join sep (z # zs) = pre @ x @ post" by auto
    then have "join sep (y # z # zs) = (y @ sep @ pre) @ x @ post" by simp
    then show ?thesis by blast
  qed
qed

lemma validate_sms_no_phone:
  assumes "q_type request = ''sms''" and "\<not> truthy_str (r_phone (q_recipient request))"
  shows "\<not> fst (validateRequest request)"
    and "''Phone number required for SMS notifications'' \<in> set (snd (validateRequest request))"
  using assms by (simp_all add: validateRequest_def Let_def)

lemma sendNotification_invalid:
  assumes "\<not> fst (validateRequest request)"
  shows "sendNotification env request st =
     (\<lparr>rs_success = False, rs_messageId = None, rs_status = Failed, rs_provider = None,
       rs_error = Some (''Invalid notification request: ''
                         @ join '', '' (snd (validateRequest request))),
       rs_deliveryTime = None, rs_cost = None\<rparr>,
      st\<lparr>auditLogs := auditLogs st @
        [\<lparr>a_timestamp = e_audit_time env, a_userId = Some ''system'',
          a_action = ''SEND_NOTIFICATION'',
          a_resource = ''/api/notifications/'' @ q_type request,
          a_details = ErrorDetails (''Invalid notification request: ''
                         @ join '', '' (snd (validateRequest request))),
          a_success = False,
          a_errorMessage = Some (''Invalid notification request: ''
                         @ join '', '' (snd (validateRequest request)))\<rparr>]\<rparr>)"
  using assms
  by (simp add: sendNotification_def sendNotification_try_def Let_def AuditLogger_log_def
      AUDIT_LOG_ENABLED_def)

text \<open>
  C8: a request of type \<^verbatim>\<open>sms\<close> without a phone number (absent or empty) gets
  \<^verbatim>\<open>success = false\<close>, status \<^verbatim>\<open>failed\<close> and the error
  \<^verbatim>\<open>Invalid notification request: \<close> followed by the joined messages, among them
  \<^verbatim>\<open>Phone number required\<close>. The response is the same under every clock, random
  generator and stored state, so neither the preference gate nor the delivery simulator
  takes part; the logs and preferences are unchanged, and exactly one audit entry is
  appended.
\<close>

theorem sms_without_phone_rejected:
  assumes "q_type request = ''sms''" and "\<not> truthy_str (r_phone (q_recipient request))"
  shows "rs_success (fst (sendNotification env request st)) = False
       \<and> rs_status (fst (sendNotification env request st)) = Failed
       \<and> rs_error (fst (sendNotification env request st))
           = Some (''Invalid notification request: '' @ join '', '' (snd (validateRequest request)))
       \<and> (\<exists>pre post. join '', '' (snd (validateRequest request))
             = pre @ ''Phone number required'' @ post)
       \<and> (\<forall>env' st'. fst (sendNotification env' request st') = fst (sendNotification env request st))
       \<and> notificationLogs (snd (sendNotification env request st)) = notificationLogs st
       \<and> notificationPreferences (snd (sendNotification env request st)) = notificationPreferences st
       \<and> (\<exists>entry. auditLogs (snd (sendNotification env request st)) = auditLogs st @ [entry]
             \<and> a_action entry = ''SEND_NOTIFICATION'' \<and> a_success entry = False
             \<and> a_errorMessage entry = rs_error (fst (sendNotification env request st)))"
proof -
  note v = validate_sms_no_phone [OF assms]
  note s = sendNotification_invalid [OF v(1)]
  from join_mentions [OF v(2), of "'', ''"] obtain pre post
    where "join '', '' (snd (validateRequest request))
           = pre @ ''Phone number required for SMS notifications'' @ post" by blast
  then have "join '', '' (snd (validateRequest request))
           = pre @ ''Phone number required'' @ ('' for SMS notifications'' @ post)" by simp
  then have m: "\<exists>pre post. join '', '' (snd (validateRequest request))
             = pre @ ''Phone number required'' @ post" by blast
  show ?thesis
    using m by (simp add: s)
qed

theorem sms_without_phone_rejected_witness:
  "q_type req_sms_no_phone = ''sms''
   \<and> \<not> truthy_str (r_phone (q_recipient req_sms_no_phone))
   \<and> rs_error (fst (sendNotification env_night req_sms_no_phone initial_state))
       = Some ''Invalid notification request: Phone number required for SMS notifications''
   \<and> rs_status (fst (sendNotification env_night req_sms_no_phone initial_state)) = Failed"
proof -
  have a: "q_type req_sms_no_phone = ''sms''"
    by (simp add: req_sms_no_phone_def)
  have b: "\<not> truthy_str (r_phone (q_recipient req_sms_no_phone))"
    by (simp add: req_sms_no_phone_def)
  have c: "snd (validateRequest req_sms_no_phone)
           = [''Phone number required for SMS notifications'']"
    by (simp add: validateRequest_def req_sms_no_phone_def)
  show ?thesis
    using sms_without_phone_rejected [OF a b, of env_night initial_state] a b
    by (simp add: c)
qed

lemma sendNotification_blocked:
  assumes "fst (validateRequest request)"
    and "shouldSendNotification env request (getUserPreferences (recipient_key request) st)
         = Inr False"
  shows "sendNotification env request st = (blocked_response, st)"
  using assms by (simp add: sendNotification_def sendNotification_try_def Let_def)

lemma blocked_example:
  "sendNotification env_night req_sms_reminder state_sms_off = (blocked_response, state_sms_off)"
proof (rule sendNotification_blocked)
  show "fst (validateRequest req_sms_reminder)"
    by (simp add: validateRequest_def req_sms_reminder_def)
  show "shouldSendNotification env_night req_sms_reminder
          (getUserPreferences (recipient_key req_sms_reminder) state_sms_off) = Inr False"
    by (simp add: shouldSendNotification_def req_sms_reminder_def getUserPreferences_def
        recipient_key_def state_sms_off_def prefs_sms_off_def)
qed

text \<open>
  C2 (as stated, refuted): a request blocked by the preference gate gets the response with
  status \<^verbatim>\<open>failed\<close> and the error \<^verbatim>\<open>Notification blocked by user preferences\<close>, but no log
  entry is written for it; the retry operation, which selects from the log, finds nothing
  and re-attempts nothing.
\<close>

theorem blocked_not_retried_counterexample:
  "rs_success (fst (sendNotification env_night req_sms_reminder state_sms_off)) = False
   \<and> rs_status (fst (sendNotification env_night req_sms_reminder state_sms_off)) = Failed
   \<and> rs_error (fst (sendNotification env_night req_sms_reminder state_sms_off))
       = Some ''Notification blocked by user preferences''
   \<and> failedLogs (snd (sendNotification env_night req_sms_reminder state_sms_off)) = []
   \<and> retryFailedNotifications envs_night
        (snd (sendNotification env_night req_sms_reminder state_sms_off))
       = (0, snd (sendNotification env_night req_sms_reminder state_sms_off))"
  unfolding blocked_example
  by (simp add: blocked_response_def failedLogs_def retryFailedNotifications_def
      state_sms_off_def)

text \<open>
  C2 (amended): a notification attempt blocked by the preference gate returns
  \<^verbatim>\<open>success = false\<close>, status \<^verbatim>\<open>failed\<close> and the error
  \<^verbatim>\<open>Notification blocked by user preferences\<close>, and leaves the state as it was: no log entry
  is written. The retry operation therefore selects the same entries, and does the same,
  as if the blocked attempt had not happened.
\<close>

theorem blocked_attempt_leaves_no_log:
  assumes "fst (validateRequest request)"
    and "shouldSendNotification env request (getUserPreferences (recipient_key request) st)
         = Inr False"
  shows "rs_success (fst (sendNotification env request st)) = False
       \<and> rs_status (fst (sendNotification env request st)) = Failed
       \<and> rs_error (fst (sendNotification env request st))
           = Some ''Notification blocked by user preferences''
       \<and> snd (sendNotification env request st) = st
       \<and> failedLogs (snd (sendNotification env request st)) = failedLogs st
       \<and> retryFailedNotifications envs (snd (sendNotification env request st))
           = retryFailedNotifications envs st"
  by (simp add: sendNotification_blocked [OF assms] blocked_response_def)

theorem blocked_attempt_leaves_no_log_witness:
  "fst (validateRequest req_sms_reminder)
   \<and> shouldSendNotification env_night req_sms_reminder
        (getUserPreferences (recipient_key req_sms_reminder) state_sms_off) = Inr False
   \<and> snd (sendNotification env_night req_sms_reminder state_sms_off) = state_sms_off"
proof -
  have a: "fst (validateRequest req_sms_reminder)"
    by (simp add: validateRequest_def req_sms_reminder_def)
  have b: "shouldSendNotification env_night req_sms_reminder
          (getUserPreferences (recipient_key req_sms_reminder) state_sms_off) = Inr False"
    by (simp add: shouldSendNotification_def req_sms_reminder_def getUserPreferences_def
        recipient_key_def state_sms_off_def prefs_sms_off_def)
  show ?thesis
    using blocked_attempt_leaves_no_log [OF a b] a b by simp
qed

text \<open>
  C3 (as stated, refuted): the call blocked by the preference gate emits no audit event;
  the audit log is as empty after the call as before.
\<close>

theorem blocked_not_audited_counterexample:
  "rs_error (fst (sendNotification env_night req_sms_reminder state_sms_off))
     = Some ''Notification blocked by user preferences''
   \<and> auditLogs state_sms_off = []
   \<and> auditLogs (snd (sendNotification env_night req_sms_reminder state_sms_off)) = []"
  unfolding blocked_example
  by (simp add: blocked_response_def state_sms_off_def)

lemma sendNotification_try_audit:
  assumes "sendNotification_try env request st = Inr (response, st')"
    and "\<not> (shouldSendNotification env request
              (getUserPreferences (recipient_key request) st) = Inr False)"
  shows "\<exists>entry. auditLogs st' = auditLogs st @ [entry]
           \<and> a_action entry = ''SEND_NOTIFICATION''
           \<and> a_success entry = rs_success response
           \<and> a_errorMessage entry = rs_error response"
  using assms
  by (auto simp: sendNotification_try_def Let_def AuditLogger_log_def AUDIT_LOG_ENABLED_def
      split: if_splits sum.splits bool.splits option.splits)

text \<open>
  C3 (amended): a call of \<^verbatim>\<open>sendNotification\<close> that the preference gate denies emits no
  audit event; every other call (validation failure, delivery failure, delivery success,
  exception) appends exactly one event, which carries the action \<^verbatim>\<open>SEND_NOTIFICATION\<close> and
  the success flag and error of the response.
\<close>

theorem sendNotification_audit_events:
  "(fst (validateRequest request)
      \<and> shouldSendNotification env request (getUserPreferences (recipient_key request) st)
          = Inr False
    \<longrightarrow> auditLogs (snd (sendNotification env request st)) = auditLogs st)
   \<and> (\<not> (fst (validateRequest request)
      \<and> shouldSendNotification env request (getUserPreferences (recipient_key request) st)
          = Inr False)
    \<longrightarrow> (\<exists>entry. auditLogs (snd (sendNotification env request st)) = auditLogs st @ [entry]
           \<and> a_action entry = ''SEND_NOTIFICATION''
           \<and> a_success entry = rs_success (fst (sendNotification env request st))
           \<and> a_errorMessage entry = rs_error (fst (sendNotification env request st))))"
proof (intro conjI impI)
  assume "fst (validateRequest request)
      \<and> shouldSendNotification env request (getUserPreferences (recipient_key request) st)
          = Inr False"
  then show "auditLogs (snd (sendNotification env request st)) = auditLogs st"
    by (simp add: sendNotification_blocked)
next
  assume n: "\<not> (fst (validateRequest request)
      \<and> shouldSendNotification env request (getUserPreferences (recipient_key request) st)
          = Inr False)"
  show "\<exists>entry. auditLogs (snd (sendNotification env request st)) = auditLogs st @ [entry]
           \<and> a_action entry = ''SEND_NOTIFICATION''
           \<and> a_success entry = rs_success (fst (sendNotification env request st))
           \<and> a_errorMessage entry = rs_error (fst (sendNotification env request st))"
  proof (cases "sendNotification_try env request st")
    case (Inl e)
    then show ?thesis
      by (simp add: sendNotification_def Let_def AuditLogger_log_def AUDIT_LOG_ENABLED_def)
  next
    case (Inr result)
    obtain response st' where r: "result = (response, st')" by (cases result)
    have v: "fst (validateRequest request)"
      using Inr by (auto simp: sendNotification_try_def Let_def split: if_splits)
    with n have "\<not> (shouldSendNotification env request
              (getUserPreferences (recipient_key request) st) = Inr False)" by simp
    from sendNotification_try_audit [OF Inr [unfolded r] this] show ?thesis
      using Inr r by (simp add: sendNotification_def)
  qed
qed

theorem sendNotification_audit_events_witness:
  "length (auditLogs (snd (sendNotification env_night req_sms_reminder initial_state))) = 1
   \<and> auditLogs (snd (sendNotification env_night req_sms_reminder state_sms_off))
       = auditLogs state_sms_off"
proof -
  have a: "fst (validateRequest req_sms_reminder)"
    by (simp add: validateRequest_def req_sms_reminder_def)
  have b: "shouldSendNotification env_night req_sms_reminder
          (getUserPreferences (recipient_key req_sms_reminder) state_sms_off) = Inr False"
    by (simp add: shouldSendNotification_def req_sms_reminder_def getUserPreferences_def
        recipient_key_def state_sms_off_def prefs_sms_off_def)
  have c: "shouldSendNotification env_night req_sms_reminder
          (getUserPreferences (recipient_key req_sms_reminder) initial_state) = Inr True"
    by (simp add: shouldSendNotification_def req_sms_reminder_def getUserPreferences_def
        recipient_key_def initial_state_def defaultPreferences_def)
  have d: "auditLogs initial_state = []"
    by (simp add: initial_state_def)
  show ?thesis
    using sendNotification_audit_events [of req_sms_reminder env_night state_sms_off]
      sendNotification_audit_events [of req_sms_reminder env_night initial_state] a b c d
    by auto
qed

section \<open>Read side: results\<close>

text \<open>
  C4 (the code departs from the claim): with an older entry stored before a newer one,
  \<^verbatim>\<open>getNotificationLogs(50, 0)\<close> returns the newer entry first, and the stored collection
  is afterwards in that order too: the call has reordered the stored log.
\<close>

theorem getNotificationLogs_reorders_store:
  "notificationLogs state_two_logs = [log_older, log_newer]
   \<and> fst (getNotificationLogs 50 0 state_two_logs) = [log_newer, log_older]
   \<and> notificationLogs (snd (getNotificationLogs 50 0 state_two_logs)) = [log_newer, log_older]
   \<and> notificationLogs (snd (getNotificationLogs 50 0 state_two_logs))
       \<noteq> notificationLogs state_two_logs"
proof -
  have t: "l_sentAt log_older = 1000" "l_sentAt log_newer = 2000"
    by (simp_all add: log_older_def log_newer_def)
  have n: "log_newer \<noteq> log_older"
    by (simp add: log_older_def log_newer_def)
  show ?thesis
    using n by (simp add: getNotificationLogs_def state_two_logs_def t js_slice_def Let_def)
qed

lemma partition_length:
  "\<forall>x \<in> set xs. P x \<or> Q x \<Longrightarrow> \<forall>x \<in> set xs. \<not> (P x \<and> Q x) \<Longrightarrow>
   length xs = length (filter P xs) + length (filter Q xs)"
  by (induction xs) auto

text \<open>
  C9: when every log entry's type is \<^verbatim>\<open>sms\<close> or \<^verbatim>\<open>email\<close>, as the type \<^verbatim>\<open>NotificationLog\<close>
  declares, \<^verbatim>\<open>getNotificationStats\<close> returns a total that is the sum of the two channel
  counts and the length of the log collection. The premise holds in every state the
  service reaches from its empty start (\<open>reachable_types\<close>, below).
\<close>

theorem stats_total_is_sum_of_channels:
  assumes "\<forall>entry \<in> set (notificationLogs st). l_type entry = ''sms'' \<or> l_type entry = ''email''"
  shows "total (getNotificationStats st)
           = byType_sms (getNotificationStats st) + byType_email (getNotificationStats st)
       \<and> total (getNotificationStats st) = length (notificationLogs st)"
proof -
  have "length (notificationLogs st)
        = length (filter (\<lambda>entry. l_type entry = ''sms'') (notificationLogs st))
        + length (filter (\<lambda>entry. l_type entry = ''email'') (notificationLogs st))"
    by (rule partition_length) (use assms in auto)
  then show ?thesis
    by (simp add: getNotificationStats_def Let_def)
qed

theorem stats_total_is_sum_of_channels_witness:
  "total (getNotificationStats state_two_logs) = 2
   \<and> byType_sms (getNotificationStats state_two_logs) = 1
   \<and> byType_email (getNotificationStats state_two_logs) = 1"
proof -
  have h: "\<forall>entry \<in> set (notificationLogs state_two_logs).
       l_type entry = ''sms'' \<or> l_type entry = ''email''"
    by (simp add: state_two_logs_def log_older_def log_newer_def)
  have s: "byType_sms (getNotificationStats state_two_logs) = 1"
    by (simp add: getNotificationStats_def state_two_logs_def log_older_def log_newer_def)
  have l: "length (notificationLogs state_two_logs) = 2"
    by (simp add: state_two_logs_def)
  show ?thesis
    using stats_total_is_sum_of_channels [OF h] h s l by simp
qed

section \<open>Structure of one dispatch\<close>

lemma validate_type:
  "fst (validateRequest request) \<Longrightarrow> q_type request = ''sms'' \<or> q_type request = ''email''"
  by (auto simp: validateRequest_def Let_def split: if_splits)

lemma sendSMS_status:
  "rs_status (sendSMS env phone content) = (if rs_success (sendSMS env phone content) then Sent else Failed)"
  by (simp add: sendSMS_def)

lemma sendEmail_status:
  "rs_status (sendEmail env email content t) = (if rs_success (sendEmail env email content t) then Sent else Failed)"
  by (simp add: sendEmail_def)

lemma delivery_status:
  "rs_status (if b then sendSMS env phone content else sendEmail env email content t)
   = (if rs_success (if b then sendSMS env phone content else sendEmail env email content t)
      then Sent else Failed)"
  by (simp add: sendSMS_status sendEmail_status)

lemma sendNotification_try_logs:
  assumes "sendNotification_try env request st = Inr (response, st')"
  shows "(\<not> rs_success response \<and> st' = st)
       \<or> (\<exists>new. notificationLogs st' = notificationLogs st @ [new]
             \<and> l_status new = (if rs_success response then Sent else Failed)
             \<and> l_retryCount new = 0
             \<and> (l_type new = ''sms'' \<or> l_type new = ''email''))"
proof -
  from assms have v: "fst (validateRequest request)"
    by (simp add: sendNotification_try_def Let_def split: if_splits)
  note ty = validate_type [OF v]
  let ?gate = "shouldSendNotification env request (getUserPreferences (recipient_key request) st)"
  show ?thesis
  proof (cases ?gate)
    case (Inl e)
    with assms v show ?thesis
      by (simp add: sendNotification_try_def Let_def)
  next
    case (Inr allowed)
    show ?thesis
    proof (cases allowed)
      case False
      with assms v Inr have "response = blocked_response" and "st' = st"
        by (simp_all add: sendNotification_try_def Let_def)
      then show ?thesis by (simp add: blocked_response_def)
    next
      case True
      show ?thesis
      proof (cases "getTemplate (q_template request) (q_type request)")
        case (Inl e)
        with assms v Inr True show ?thesis
          by (simp add: sendNotification_try_def Let_def)
      next
        case template: (Inr template)
        show ?thesis
        proof (cases "q_data request")
          case None
          with assms v Inr True template show ?thesis
            by (simp add: sendNotification_try_def Let_def)
        next
          case (Some data)
          with assms v Inr True template
          have "\<exists>new. notificationLogs st' = notificationLogs st @ [new]
             \<and> l_status new = rs_status response
             \<and> rs_status response = (if rs_success response then Sent else Failed)
             \<and> l_retryCount new = 0
             \<and> l_type new = q_type request"
            by (auto simp add: sendNotification_try_def Let_def AuditLogger_log_def
                AUDIT_LOG_ENABLED_def delivery_status)
          with ty show ?thesis by auto
        qed
      qed
    qed
  qed
qed

lemma sendNotification_logs:
  "(\<not> rs_success (fst (sendNotification env request st))
      \<and> notificationLogs (snd (sendNotification env request st)) = notificationLogs st)
   \<or> (\<exists>new. notificationLogs (snd (sendNotification env request st)) = notificationLogs st @ [new]
         \<and> l_status new = (if rs_success (fst (sendNotification env request st)) then Sent else Failed)
         \<and> l_retryCount new = 0
         \<and> (l_type new = ''sms'' \<or> l_type new = ''email''))"
proof (cases "sendNotification_try env request st")
  case (Inl e)
  then show ?thesis
    by (simp add: sendNotification_def Let_def AuditLogger_log_def AUDIT_LOG_ENABLED_def)
next
  case (Inr result)
  obtain response st' where r: "result = (response, st')" by (cases result)
  from sendNotification_try_logs [OF Inr [unfolded r]] show ?thesis
    using Inr r by (auto simp: sendNotification_def)
qed

section \<open>Structure of the retry loop\<close>

lemma retry_one_cases:
  assumes i: "i < length (notificationLogs st)"
  shows "\<exists>news. notificationLogs (snd (retry_one env i (n, st)))
            = (notificationLogs st)
                [i := (if rs_success (fst (sendNotification env
                                      (retry_request (notificationLogs st ! i)) st))
                       then upgraded (notificationLogs st ! i) else notificationLogs st ! i)]
              @ news
          \<and> fst (retry_one env i (n, st))
            = (if rs_success (fst (sendNotification env
                                      (retry_request (notificationLogs st ! i)) st))
               then n + 1 else n)
          \<and> length (filter (\<lambda>entry. l_status entry = Sent) news)
            = (if rs_success (fst (sendNotification env
                                      (retry_request (notificationLogs st ! i)) st))
               then 1 else 0)
          \<and> length news \<le> 1
          \<and> (\<forall>entry \<in> set news. l_retryCount entry = 0
                \<and> (l_type entry = ''sms'' \<or> l_type entry = ''email''))"
proof -
  let ?r = "sendNotification env (retry_request (notificationLogs st ! i)) st"
  from sendNotification_logs [of env "retry_request (notificationLogs st ! i)" st]
  consider (same) "\<not> rs_success (fst ?r)" "notificationLogs (snd ?r) = notificationLogs st"
    | (new) new where "notificationLogs (snd ?r) = notificationLogs st @ [new]"
        "l_status new = (if rs_success (fst ?r) then Sent else Failed)"
        "l_retryCount new = 0" "l_type new = ''sms'' \<or> l_type new = ''email''"
    by blast
  then show ?thesis
  proof cases
    case same
    then show ?thesis
      by (simp add: retry_one_def Let_def)
  next
    case new
    show ?thesis
    proof (cases "rs_success (fst ?r)")
      case True
      with new i have "notificationLogs (snd (retry_one env i (n, st)))
            = (notificationLogs st)[i := upgraded (notificationLogs st ! i)] @ [new]"
        by (simp add: retry_one_def Let_def upgraded_def list_update_append1 nth_append)
      with True new show ?thesis
        by (simp add: retry_one_def Let_def)
    next
      case False
      with new show ?thesis
        by (simp add: retry_one_def Let_def)
    qed
  qed
qed

lemma retry_loop_inv:
  assumes "distinct is" and "\<forall>j \<in> set is. j < length (notificationLogs st)"
  shows "\<exists>U news. U \<subseteq> set is
          \<and> notificationLogs (snd (retry_loop envs k is (n, st)))
            = map (\<lambda>j. if j \<in> U then upgraded (notificationLogs st ! j)
                        else notificationLogs st ! j)
                [0 ..< length (notificationLogs st)] @ news
          \<and> fst (retry_loop envs k is (n, st)) = n + card U
          \<and> length (filter (\<lambda>entry. l_status entry = Sent) news) = card U
          \<and> (\<forall>entry \<in> set news. l_retryCount entry = 0
                \<and> (l_type entry = ''sms'' \<or> l_type entry = ''email''))"
  using assms
proof (induction "is" arbitrary: k n st)
  case Nil
  have "notificationLogs st
        = map (\<lambda>j. notificationLogs st ! j) [0 ..< length (notificationLogs st)]"
    by (simp add: map_nth)
  then have "{} \<subseteq> set ([]::nat list)
          \<and> notificationLogs (snd (retry_loop envs k [] (n, st)))
            = map (\<lambda>j. if j \<in> {} then upgraded (notificationLogs st ! j)
                        else notificationLogs st ! j)
                [0 ..< length (notificationLogs st)] @ []
          \<and> fst (retry_loop envs k [] (n, st)) = n + card ({}::nat set)
          \<and> length (filter (\<lambda>entry. l_status entry = Sent) []) = card ({}::nat set)
          \<and> (\<forall>entry \<in> set []. l_retryCount entry = 0
                \<and> (l_type entry = ''sms'' \<or> l_type entry = ''email''))"
    by simp
  then show ?case by blast
next
  case (Cons i rest)
  let ?L = "notificationLogs st"
  let ?b = "rs_success (fst (sendNotification (envs k) (retry_request (?L ! i)) st))"
  let ?e = "if ?b then upgraded (?L ! i) else ?L ! i"
  obtain n1 st1 where r1: "retry_one (envs k) i (n, st) = (n1, st1)"
    by (cases "retry_one (envs k) i (n, st)")
  from Cons.prems have i: "i < length ?L" and irest: "i \<notin> set rest"
    and drest: "distinct rest" and brest: "\<forall>j \<in> set rest. j < length ?L"
    by auto
  from retry_one_cases [OF i, of "envs k" n] r1 obtain news1
    where L1: "notificationLogs st1 = ?L[i := ?e] @ news1"
      and n1: "n1 = (if ?b then n + 1 else n)"
      and s1: "length (filter (\<lambda>entry. l_status entry = Sent) news1) = (if ?b then 1 else 0)"
      and t1: "\<forall>entry \<in> set news1. l_retryCount entry = 0
                \<and> (l_type entry = ''sms'' \<or> l_type entry = ''email'')"
    by auto
  from brest L1 have brest1: "\<forall>j \<in> set rest. j < length (notificationLogs st1)"
    by auto
  from Cons.IH [OF drest brest1, of "Suc k" n1] obtain U' news'
    where U': "U' \<subseteq> set rest"
      and L': "notificationLogs (snd (retry_loop envs (Suc k) rest (n1, st1)))
            = map (\<lambda>j. if j \<in> U' then upgraded (notificationLogs st1 ! j)
                        else notificationLogs st1 ! j)
                [0 ..< length (notificationLogs st1)] @ news'"
      and c': "fst (retry_loop envs (Suc k) rest (n1, st1)) = n1 + card U'"
      and s': "length (filter (\<lambda>entry. l_status entry = Sent) news') = card U'"
      and t': "\<forall>entry \<in> set news'. l_retryCount entry = 0
                \<and> (l_type entry = ''sms'' \<or> l_type entry = ''email'')"
    by blast
  let ?U = "if ?b then insert i U' else U'"
  have fin: "finite U'" using U' by (rule finite_subset) simp
  have iU: "i \<notin> U'" using U' irest by auto
  have cardU: "card ?U = (if ?b then 1 else 0) + card U'"
    using fin iU by simp
  have below: "\<forall>j \<in> U'. j < length ?L" using U' brest by auto
  have pre: "map (\<lambda>j. if j \<in> U' then upgraded (notificationLogs st1 ! j)
                        else notificationLogs st1 ! j)
                [0 ..< length (notificationLogs st1)]
           = map (\<lambda>j. if j \<in> ?U then upgraded (?L ! j) else ?L ! j) [0 ..< length ?L] @ news1"
  proof (rule nth_equalityI)
    show "length (map (\<lambda>j. if j \<in> U' then upgraded (notificationLogs st1 ! j)
                        else notificationLogs st1 ! j)
                [0 ..< length (notificationLogs st1)])
          = length (map (\<lambda>j. if j \<in> ?U then upgraded (?L ! j) else ?L ! j)
                [0 ..< length ?L] @ news1)"
      by (simp add: L1)
  next
    fix j
    assume "j < length (map (\<lambda>j. if j \<in> U' then upgraded (notificationLogs st1 ! j)
                        else notificationLogs st1 ! j)
                [0 ..< length (notificationLogs st1)])"
    then have j: "j < length ?L + length news1" by (simp add: L1)
    show "map (\<lambda>j. if j \<in> U' then upgraded (notificationLogs st1 ! j)
                        else notificationLogs st1 ! j)
                [0 ..< length (notificationLogs st1)] ! j
          = (map (\<lambda>j. if j \<in> ?U then upgraded (?L ! j) else ?L ! j)
                [0 ..< length ?L] @ news1) ! j"
    proof (cases "j < length ?L")
      case True
      then have "notificationLogs st1 ! j = (if j = i then ?e else ?L ! j)"
        by (simp add: L1 nth_append nth_list_update)
      then have "map (\<lambda>j. if j \<in> U' then upgraded (notificationLogs st1 ! j)
                        else notificationLogs st1 ! j)
                [0 ..< length (notificationLogs st1)] ! j
            = (if j \<in> U' then upgraded (if j = i then ?e else ?L ! j)
               else (if j = i then ?e else ?L ! j))"
        using True by (simp add: L1)
      also have "\<dots> = (if j \<in> ?U then upgraded (?L ! j) else ?L ! j)"
        using iU by auto
      finally show ?thesis using True by (simp add: nth_append)
    next
      case False
      with below have "j \<notin> U'" by auto
      with False j show ?thesis
        by (simp add: L1 nth_append)
    qed
  qed
  have "?U \<subseteq> set (i # rest)
          \<and> notificationLogs (snd (retry_loop envs k (i # rest) (n, st)))
            = map (\<lambda>j. if j \<in> ?U then upgraded (?L ! j) else ?L ! j) [0 ..< length ?L]
              @ (news1 @ news')
          \<and> fst (retry_loop envs k (i # rest) (n, st)) = n + card ?U
          \<and> length (filter (\<lambda>entry. l_status entry = Sent) (news1 @ news')) = card ?U
          \<and> (\<forall>entry \<in> set (news1 @ news'). l_retryCount entry = 0
                \<and> (l_type entry = ''sms'' \<or> l_type entry = ''email''))"
  proof (intro conjI)
    show "?U \<subseteq> set (i # rest)" using U' by auto
    show "notificationLogs (snd (retry_loop envs k (i # rest) (n, st)))
            = map (\<lambda>j. if j \<in> ?U then upgraded (?L ! j) else ?L ! j) [0 ..< length ?L]
              @ (news1 @ news')"
      using L' pre by (simp add: r1)
    show "fst (retry_loop envs k (i # rest) (n, st)) = n + card ?U"
      using c' n1 cardU by (simp add: r1)
    show "length (filter (\<lambda>entry. l_status entry = Sent) (news1 @ news')) = card ?U"
      using s1 s' cardU by simp
    show "\<forall>entry \<in> set (news1 @ news'). l_retryCount entry = 0
                \<and> (l_type entry = ''sms'' \<or> l_type entry = ''email'')"
      using t1 t' by auto
  qed
  then show ?case by blast
qed

section \<open>Retry: results\<close>

lemma length_filter_upt: "length (filter P [0 ..< n]) = card {i. i < n \<and> P i}"
proof -
  have "distinct (filter P [0 ..< n])"
    by simp
  then have "length (filter P [0 ..< n]) = card (set (filter P [0 ..< n]))"
    by (rule distinct_card [symmetric])
  also have "set (filter P [0 ..< n]) = {i. i < n \<and> P i}"
    by auto
  finally show ?thesis .
qed

lemma failedLogs_set:
  "set (failedLogs st)
   = {i. i < length (notificationLogs st) \<and> l_status (notificationLogs st ! i) = Failed
         \<and> l_retryCount (notificationLogs st ! i) < 3}"
  by (auto simp: failedLogs_def)

lemma failedLogs_distinct: "distinct (failedLogs st)"
  by (simp add: failedLogs_def)

lemma retry_result:
  "\<exists>U news. U \<subseteq> set (failedLogs st)
      \<and> notificationLogs (snd (retryFailedNotifications envs st))
        = map (\<lambda>j. if j \<in> U then upgraded (notificationLogs st ! j)
                    else notificationLogs st ! j)
            [0 ..< length (notificationLogs st)] @ news
      \<and> fst (retryFailedNotifications envs st) = card U
      \<and> length (filter (\<lambda>entry. l_status entry = Sent) news) = card U
      \<and> (\<forall>entry \<in> set news. l_retryCount entry = 0
            \<and> (l_type entry = ''sms'' \<or> l_type entry = ''email''))"
proof -
  have b: "\<forall>j \<in> set (failedLogs st). j < length (notificationLogs st)"
    by (simp add: failedLogs_set)
  from retry_loop_inv [OF failedLogs_distinct b, of envs 0 0] show ?thesis
    by (simp add: retryFailedNotifications_def)
qed


lemma retry_entry_cases:
  assumes "i < length (notificationLogs st)"
  shows "notificationLogs (snd (retryFailedNotifications envs st)) ! i = notificationLogs st ! i
       \<or> (i \<in> set (failedLogs st)
          \<and> notificationLogs (snd (retryFailedNotifications envs st)) ! i
            = upgraded (notificationLogs st ! i))"
proof -
  from retry_result [of st envs] obtain U news
    where U: "U \<subseteq> set (failedLogs st)"
      and L: "notificationLogs (snd (retryFailedNotifications envs st))
        = map (\<lambda>j. if j \<in> U then upgraded (notificationLogs st ! j)
                    else notificationLogs st ! j)
            [0 ..< length (notificationLogs st)] @ news"
    by blast
  from assms U show ?thesis by (auto simp: L nth_append)
qed

lemma retry_count:
  "fst (retryFailedNotifications envs st)
   = length (filter (\<lambda>i. l_status (notificationLogs st ! i) \<noteq> Sent
                    \<and> l_status (notificationLogs (snd (retryFailedNotifications envs st)) ! i) = Sent)
       [0 ..< length (notificationLogs st)])"
  and retry_new_rows:
  "length (filter (\<lambda>entry. l_status entry = Sent)
     (drop (length (notificationLogs st))
        (notificationLogs (snd (retryFailedNotifications envs st)))))
   = fst (retryFailedNotifications envs st)"
proof -
  let ?L = "notificationLogs st"
  let ?L' = "notificationLogs (snd (retryFailedNotifications envs st))"
  from retry_result [of st envs] obtain U news
    where U: "U \<subseteq> set (failedLogs st)"
      and L: "?L' = map (\<lambda>j. if j \<in> U then upgraded (?L ! j) else ?L ! j) [0 ..< length ?L] @ news"
      and c: "fst (retryFailedNotifications envs st) = card U"
      and s: "length (filter (\<lambda>entry. l_status entry = Sent) news) = card U"
    by blast
  have nth: "?L' ! i = (if i \<in> U then upgraded (?L ! i) else ?L ! i)" if "i < length ?L" for i
    using that by (simp add: L nth_append)
  have failed: "l_status (?L ! i) = Failed" and below: "i < length ?L" if "i \<in> U" for i
    using that U by (auto simp: failedLogs_set)
  have "{i. i < length ?L \<and> l_status (?L ! i) \<noteq> Sent \<and> l_status (?L' ! i) = Sent} = U"
  proof (intro set_eqI iffI)
    fix i assume "i \<in> {i. i < length ?L \<and> l_status (?L ! i) \<noteq> Sent \<and> l_status (?L' ! i) = Sent}"
    then have i: "i < length ?L" "l_status (?L ! i) \<noteq> Sent" "l_status (?L' ! i) = Sent" by auto
    show "i \<in> U"
    proof (rule ccontr)
      assume "i \<notin> U"
      with nth [OF i(1)] have "?L' ! i = ?L ! i" by simp
      with i show False by simp
    qed
  next
    fix i assume iU: "i \<in> U"
    with nth [OF below [OF iU]] have "l_status (?L' ! i) = Sent"
      by (simp add: upgraded_def)
    with failed [OF iU] below [OF iU]
    show "i \<in> {i. i < length ?L \<and> l_status (?L ! i) \<noteq> Sent \<and> l_status (?L' ! i) = Sent}"
      by simp
  qed
  then have "card U = card {i. i < length ?L \<and> l_status (?L ! i) \<noteq> Sent \<and> l_status (?L' ! i) = Sent}"
    by simp
  also have "\<dots> = length (filter (\<lambda>i. l_status (?L ! i) \<noteq> Sent \<and> l_status (?L' ! i) = Sent)
                        [0 ..< length ?L])"
    by (rule length_filter_upt [symmetric])
  finally show "fst (retryFailedNotifications envs st)
   = length (filter (\<lambda>i. l_status (?L ! i) \<noteq> Sent \<and> l_status (?L' ! i) = Sent) [0 ..< length ?L])"
    using c by simp
  show "length (filter (\<lambda>entry. l_status entry = Sent) (drop (length ?L) ?L'))
        = fst (retryFailedNotifications envs st)"
    using s c by (simp add: L)
qed

lemma retry_example_success:
  "rs_success (fst (sendNotification env_night
      (retry_request (notificationLogs state_failed ! 0)) state_failed))"
proof -
  have r: "retry_request (notificationLogs state_failed ! 0)
           = \<lparr>q_type = ''sms'',
              q_recipient = \<lparr>r_phone = Some ''+15551234567'', r_email = None, r_name = None\<rparr>,
              q_template = ''appointmentReminder'', q_data = Some (plain_object Map.empty),
              q_priority = None\<rparr>"
    by (simp add: retry_request_def state_failed_def log_failed_def)
  show ?thesis
    unfolding r
    by (simp add: sendNotification_def sendNotification_try_def Let_def validateRequest_def
        shouldSendNotification_def getUserPreferences_def recipient_key_def state_failed_def
        defaultPreferences_def getTemplate_def sendSMS_def env_night_def)
qed

lemma retry_upgrade_facts:
  "(i < length (notificationLogs st)
      \<and> rs_success (fst (sendNotification env (retry_request (notificationLogs st ! i)) st))
    \<longrightarrow> fst (retry_one env i (n, st)) = n + 1
      \<and> (\<exists>new. notificationLogs (snd (retry_one env i (n, st)))
                 = (notificationLogs st)
                     [i := (notificationLogs st ! i)
                             \<lparr>l_status := Sent,
                              l_retryCount := l_retryCount (notificationLogs st ! i) + 1\<rparr>]
                   @ [new]
               \<and> l_status new = Sent \<and> l_retryCount new = 0))
   \<and> (\<forall>j < length (notificationLogs st).
         notificationLogs (snd (retryFailedNotifications envs st)) ! j = notificationLogs st ! j
         \<or> (j \<in> set (failedLogs st)
            \<and> notificationLogs (snd (retryFailedNotifications envs st)) ! j
              = (notificationLogs st ! j)
                  \<lparr>l_status := Sent,
                   l_retryCount := l_retryCount (notificationLogs st ! j) + 1\<rparr>))
   \<and> fst (retryFailedNotifications envs st)
     = length (filter (\<lambda>j. l_status (notificationLogs st ! j) \<noteq> Sent
                  \<and> l_status (notificationLogs (snd (retryFailedNotifications envs st)) ! j) = Sent)
         [0 ..< length (notificationLogs st)])
   \<and> length (filter (\<lambda>entry. l_status entry = Sent)
        (drop (length (notificationLogs st))
           (notificationLogs (snd (retryFailedNotifications envs st)))))
     = fst (retryFailedNotifications envs st)"
proof (intro conjI impI allI)
  assume a: "i < length (notificationLogs st)
      \<and> rs_success (fst (sendNotification env (retry_request (notificationLogs st ! i)) st))"
  from retry_one_cases [of i st env n] a obtain news
    where L: "notificationLogs (snd (retry_one env i (n, st)))
            = (notificationLogs st)[i := upgraded (notificationLogs st ! i)] @ news"
      and c: "fst (retry_one env i (n, st)) = n + 1"
      and s: "length (filter (\<lambda>entry. l_status entry = Sent) news) = 1"
      and l: "length news \<le> 1"
      and t: "\<forall>entry \<in> set news. l_retryCount entry = 0"
    by auto
  from s l obtain new where new: "news = [new]"
    by (cases news) auto
  with s have "l_status new = Sent"
    by (simp split: if_splits)
  with new t L
  have "notificationLogs (snd (retry_one env i (n, st)))
                 = (notificationLogs st)
                     [i := (notificationLogs st ! i)
                             \<lparr>l_status := Sent,
                              l_retryCount := l_retryCount (notificationLogs st ! i) + 1\<rparr>]
                   @ [new]
               \<and> l_status new = Sent \<and> l_retryCount new = 0"
    by (simp add: upgraded_def)
  then show "\<exists>new. notificationLogs (snd (retry_one env i (n, st)))
                 = (notificationLogs st)
                     [i := (notificationLogs st ! i)
                             \<lparr>l_status := Sent,
                              l_retryCount := l_retryCount (notificationLogs st ! i) + 1\<rparr>]
                   @ [new]
               \<and> l_status new = Sent \<and> l_retryCount new = 0"
    by blast
  show "fst (retry_one env i (n, st)) = n + 1" by (rule c)
next
  fix j assume "j < length (notificationLogs st)"
  from retry_entry_cases [OF this, of envs]
  show "notificationLogs (snd (retryFailedNotifications envs st)) ! j = notificationLogs st ! j
         \<or> (j \<in> set (failedLogs st)
            \<and> notificationLogs (snd (retryFailedNotifications envs st)) ! j
              = (notificationLogs st ! j)
                  \<lparr>l_status := Sent,
                   l_retryCount := l_retryCount (notificationLogs st ! j) + 1\<rparr>)"
    by (simp add: upgraded_def)
next
  show "fst (retryFailedNotifications envs st)
     = length (filter (\<lambda>j. l_status (notificationLogs st ! j) \<noteq> Sent
                  \<and> l_status (notificationLogs (snd (retryFailedNotifications envs st)) ! j) = Sent)
         [0 ..< length (notificationLogs st)])"
    by (rule retry_count)
next
  show "length (filter (\<lambda>entry. l_status entry = Sent)
        (drop (length (notificationLogs st))
           (notificationLogs (snd (retryFailedNotifications envs st)))))
     = fst (retryFailedNotifications envs st)"
    by (rule retry_new_rows)
qed


section \<open>Log entries of reachable states\<close>

text \<open>
  Every entry the service writes has type \<^verbatim>\<open>sms\<close> or \<^verbatim>\<open>email\<close>: an entry is written only
  after validation, the retry changes status and retry count only, and the read side
  permutes the entries.
\<close>

lemma reachable_types:
  "reachable st \<Longrightarrow>
   \<forall>entry \<in> set (notificationLogs st). l_type entry = ''sms'' \<or> l_type entry = ''email''"
proof (induction rule: reachable.induct)
  case start
  show ?case by simp
next
  case (send st env request)
  from sendNotification_logs [of env request st] send.IH show ?case
    by auto
next
  case (retry st envs)
  from retry_result [of st envs] obtain U news
    where L: "notificationLogs (snd (retryFailedNotifications envs st))
        = map (\<lambda>j. if j \<in> U then upgraded (notificationLogs st ! j)
                    else notificationLogs st ! j)
            [0 ..< length (notificationLogs st)] @ news"
      and t: "\<forall>entry \<in> set news. l_retryCount entry = 0
            \<and> (l_type entry = ''sms'' \<or> l_type entry = ''email'')"
    by blast
  have "\<forall>j < length (notificationLogs st).
          l_type (notificationLogs st ! j) = ''sms'' \<or> l_type (notificationLogs st ! j) = ''email''"
    using retry.IH by simp
  then show ?case
    using t by (fastforce simp: L upgraded_def)
next
  case (logs st limit offset)
  then show ?case
    by (simp add: getNotificationLogs_def Let_def)
next
  case (update st userId preferences)
  then show ?case
    by (simp add: updateUserPreferences_def Let_def)
qed

text \<open>
  What \<^verbatim>\<open>getNotificationLogs\<close> returns and keeps: the stored collection afterwards holds
  the same entries, latest first, and the result is the slice of it.
\<close>

lemma getNotificationLogs_result:
  "fst (getNotificationLogs limit offset st)
     = js_slice offset (offset + limit) (notificationLogs (snd (getNotificationLogs limit offset st)))"
  and getNotificationLogs_sorted:
  "sorted (map (\<lambda>entry. - l_sentAt entry)
     (notificationLogs (snd (getNotificationLogs limit offset st))))"
  and getNotificationLogs_same_entries:
  "set (notificationLogs (snd (getNotificationLogs limit offset st))) = set (notificationLogs st)"
  "length (notificationLogs (snd (getNotificationLogs limit offset st)))
     = length (notificationLogs st)"
  by (simp_all add: getNotificationLogs_def Let_def)

lemma js_slice_window:
  "0 \<le> offset \<Longrightarrow> 0 \<le> limit \<Longrightarrow>
   js_slice offset (offset + limit) xs = take (nat limit) (drop (nat offset) xs)"
  by (auto simp: js_slice_def Let_def min_def nat_add_distrib)

section \<open>A dispatch depends on the state through the preferences only\<close>

lemma getUserPreferences_frame:
  "notificationPreferences st' = notificationPreferences st \<Longrightarrow>
   getUserPreferences k st' = getUserPreferences k st"
  by (simp add: getUserPreferences_def)

lemma sendNotification_gate_error:
  assumes "fst (validateRequest request)"
    and "shouldSendNotification env request (getUserPreferences (recipient_key request) st)
         = Inl e"
  shows "sendNotification env request st =
     (\<lparr>rs_success = False, rs_messageId = None, rs_status = Failed, rs_provider = None,
       rs_error = Some (message e), rs_deliveryTime = None, rs_cost = None\<rparr>,
      st\<lparr>auditLogs := auditLogs st @
        [\<lparr>a_timestamp = e_audit_time env, a_userId = Some ''system'',
          a_action = ''SEND_NOTIFICATION'',
          a_resource = ''/api/notifications/'' @ q_type request,
          a_details = ErrorDetails (message e), a_success = False,
          a_errorMessage = Some (message e)\<rparr>]\<rparr>)"
  using assms
  by (simp add: sendNotification_def sendNotification_try_def Let_def AuditLogger_log_def
      AUDIT_LOG_ENABLED_def)

lemma sendNotification_frame:
  assumes p: "notificationPreferences st' = notificationPreferences st"
  shows "sendNotification env request st' =
     (fst (sendNotification env request st),
      st'\<lparr>notificationLogs := notificationLogs st'
              @ drop (length (notificationLogs st))
                  (notificationLogs (snd (sendNotification env request st))),
          auditLogs := auditLogs st'
              @ drop (length (auditLogs st))
                  (auditLogs (snd (sendNotification env request st)))\<rparr>)"
proof (cases "fst (validateRequest request)")
  case False
  show ?thesis
    by (simp add: sendNotification_invalid [OF False])
next
  case v: True
  let ?gate = "shouldSendNotification env request (getUserPreferences (recipient_key request) st)"
  have g': "shouldSendNotification env request (getUserPreferences (recipient_key request) st')
            = ?gate"
    by (simp add: getUserPreferences_frame [OF p])
  show ?thesis
  proof (cases ?gate)
    case (Inl e)
    from Inl g' have e': "shouldSendNotification env request
        (getUserPreferences (recipient_key request) st') = Inl e" by simp
    show ?thesis
      by (simp add: sendNotification_gate_error [OF v Inl] sendNotification_gate_error [OF v e'])
  next
    case (Inr allowed)
    show ?thesis
    proof (cases allowed)
      case False
      from Inr False g' have b: "?gate = Inr False"
        and b': "shouldSendNotification env request
          (getUserPreferences (recipient_key request) st') = Inr False" by simp_all
      show ?thesis
        by (simp add: sendNotification_blocked [OF v b] sendNotification_blocked [OF v b'])
    next
      case True
      from Inr True g' have a: "?gate = Inr True"
        and a': "shouldSendNotification env request
          (getUserPreferences (recipient_key request) st') = Inr True" by simp_all
      show ?thesis
      proof (cases "getTemplate (q_template request) (q_type request)")
        case (Inl e)
        show ?thesis
          using v a a' Inl
          by (simp add: sendNotification_def sendNotification_try_def Let_def AuditLogger_log_def
              AUDIT_LOG_ENABLED_def)
      next
        case t: (Inr template)
        show ?thesis
        proof (cases "q_data request")
          case None
          show ?thesis
            using v a a' t None
            by (simp add: sendNotification_def sendNotification_try_def Let_def
                AuditLogger_log_def AUDIT_LOG_ENABLED_def)
        next
          case (Some data)
          show ?thesis
            using v a a' t Some
            by (simp add: sendNotification_def sendNotification_try_def Let_def
                AuditLogger_log_def AUDIT_LOG_ENABLED_def)
        qed
      qed
    qed
  qed
qed

lemma sendNotification_prefs:
  "notificationPreferences (snd (sendNotification env request st)) = notificationPreferences st"
  by (subst sendNotification_frame [OF refl]) simp

lemma sendNotification_logs_prefix:
  "notificationLogs (snd (sendNotification env request st))
   = notificationLogs st @ drop (length (notificationLogs st))
                  (notificationLogs (snd (sendNotification env request st)))"
  using sendNotification_logs [of env request st] by auto

section \<open>The retry loop, turn by turn\<close>

lemma sendNotification_audit_prefix:
  "auditLogs (snd (sendNotification env request st))
   = auditLogs st @ drop (length (auditLogs st))
                      (auditLogs (snd (sendNotification env request st)))"
  by (subst sendNotification_frame [OF refl]) simp

lemma frame_response:
  "notificationPreferences st' = notificationPreferences st \<Longrightarrow>
   fst (sendNotification env request st') = fst (sendNotification env request st)"
  by (simp add: sendNotification_frame [of st' st])

lemma frame_rows:
  "notificationPreferences st' = notificationPreferences st \<Longrightarrow>
   drop (length (notificationLogs st')) (notificationLogs (snd (sendNotification env request st')))
   = drop (length (notificationLogs st)) (notificationLogs (snd (sendNotification env request st)))"
  by (simp add: sendNotification_frame [of st' st])

lemma frame_events:
  "notificationPreferences st' = notificationPreferences st \<Longrightarrow>
   drop (length (auditLogs st')) (auditLogs (snd (sendNotification env request st')))
   = drop (length (auditLogs st)) (auditLogs (snd (sendNotification env request st)))"
  by (simp add: sendNotification_frame [of st' st])

lemma turn_frame:
  assumes "notificationPreferences st' = notificationPreferences st"
    and "notificationLogs st' ! i = notificationLogs st ! i"
  shows "turn_ok envs st' (p, i) = turn_ok envs st (p, i)"
    and "turn_rows envs st' (p, i) = turn_rows envs st (p, i)"
    and "turn_events envs st' (p, i) = turn_events envs st (p, i)"
  using assms
  by (simp_all add: turn_ok_def turn_rows_def turn_events_def frame_response [of st' st]
      frame_rows [of st' st] frame_events [of st' st])

lemma retry_one_run:
  assumes i: "i < length (notificationLogs st)"
  shows "fst (retry_one (envs p) i (n, st)) = (if turn_ok envs st (p, i) then n + 1 else n)"
    and "notificationPreferences (snd (retry_one (envs p) i (n, st))) = notificationPreferences st"
    and "auditLogs (snd (retry_one (envs p) i (n, st)))
         = auditLogs st @ turn_events envs st (p, i)"
    and "notificationLogs (snd (retry_one (envs p) i (n, st)))
         = (notificationLogs st)
             [i := (if turn_ok envs st (p, i) then upgraded (notificationLogs st ! i)
                    else notificationLogs st ! i)]
           @ turn_rows envs st (p, i)"
proof -
  let ?r = "sendNotification (envs p) (retry_request (notificationLogs st ! i)) st"
  have l: "notificationLogs (snd ?r) = notificationLogs st @ turn_rows envs st (p, i)"
    using sendNotification_logs_prefix [of "envs p" "retry_request (notificationLogs st ! i)" st]
    by (simp add: turn_rows_def)
  have a: "auditLogs (snd ?r) = auditLogs st @ turn_events envs st (p, i)"
    using sendNotification_audit_prefix [of "envs p" "retry_request (notificationLogs st ! i)" st]
    by (simp add: turn_events_def)
  have pr: "notificationPreferences (snd ?r) = notificationPreferences st"
    by (rule sendNotification_prefs)
  show "fst (retry_one (envs p) i (n, st)) = (if turn_ok envs st (p, i) then n + 1 else n)"
    by (simp add: retry_one_def Let_def turn_ok_def)
  show "notificationPreferences (snd (retry_one (envs p) i (n, st))) = notificationPreferences st"
    using pr by (simp add: retry_one_def Let_def)
  show "auditLogs (snd (retry_one (envs p) i (n, st)))
         = auditLogs st @ turn_events envs st (p, i)"
    using a by (simp add: retry_one_def Let_def)
  show "notificationLogs (snd (retry_one (envs p) i (n, st)))
         = (notificationLogs st)
             [i := (if turn_ok envs st (p, i) then upgraded (notificationLogs st ! i)
                    else notificationLogs st ! i)]
           @ turn_rows envs st (p, i)"
    using i l
    by (simp add: retry_one_def Let_def turn_ok_def upgraded_def list_update_append1 nth_append)
qed

lemma retry_loop_untouched:
  assumes "distinct is" and "\<forall>j \<in> set is. j < length (notificationLogs st)"
  shows "length (notificationLogs st) \<le> length (notificationLogs (snd (retry_loop envs k is (n, st))))"
    and "j < length (notificationLogs st) \<Longrightarrow> j \<notin> set is \<Longrightarrow>
         notificationLogs (snd (retry_loop envs k is (n, st))) ! j = notificationLogs st ! j"
proof -
  from retry_loop_inv [OF assms, of envs k n] obtain U news
    where U: "U \<subseteq> set is"
      and L: "notificationLogs (snd (retry_loop envs k is (n, st)))
            = map (\<lambda>j. if j \<in> U then upgraded (notificationLogs st ! j)
                        else notificationLogs st ! j)
                [0 ..< length (notificationLogs st)] @ news"
    by blast
  show "length (notificationLogs st) \<le> length (notificationLogs (snd (retry_loop envs k is (n, st))))"
    by (simp add: L)
  show "notificationLogs (snd (retry_loop envs k is (n, st))) ! j = notificationLogs st ! j"
    if "j < length (notificationLogs st)" and "j \<notin> set is"
    using that U by (auto simp: L nth_append)
qed

lemma retry_loop_run:
  assumes "distinct is" and "\<forall>j \<in> set is. j < length (notificationLogs st)"
  shows "fst (retry_loop envs k is (n, st))
           = n + length (filter (turn_ok envs st) (zip [k ..< k + length is] is))
       \<and> notificationPreferences (snd (retry_loop envs k is (n, st))) = notificationPreferences st
       \<and> auditLogs (snd (retry_loop envs k is (n, st)))
           = auditLogs st @ concat (map (turn_events envs st) (zip [k ..< k + length is] is))
       \<and> drop (length (notificationLogs st)) (notificationLogs (snd (retry_loop envs k is (n, st))))
           = concat (map (turn_rows envs st) (zip [k ..< k + length is] is))
       \<and> (\<forall>x \<in> set (zip [k ..< k + length is] is).
             notificationLogs (snd (retry_loop envs k is (n, st))) ! snd x
             = (if turn_ok envs st x then upgraded (notificationLogs st ! snd x)
                else notificationLogs st ! snd x))"
  using assms
proof (induction "is" arbitrary: k n st)
  case Nil
  show ?case by simp
next
  case (Cons i rest)
  let ?L = "notificationLogs st"
  let ?e = "if turn_ok envs st (k, i) then upgraded (?L ! i) else ?L ! i"
  define Z where "Z = zip [Suc k ..< Suc k + length rest] rest"
  obtain n1 st1 where r1: "retry_one (envs k) i (n, st) = (n1, st1)"
    by (cases "retry_one (envs k) i (n, st)")
  from Cons.prems have i: "i < length ?L" and irest: "i \<notin> set rest"
    and drest: "distinct rest" and brest: "\<forall>j \<in> set rest. j < length ?L"
    by auto
  from retry_one_run [OF i, of envs k n] r1
  have n1: "n1 = (if turn_ok envs st (k, i) then n + 1 else n)"
    and P1: "notificationPreferences st1 = notificationPreferences st"
    and A1: "auditLogs st1 = auditLogs st @ turn_events envs st (k, i)"
    and L1: "notificationLogs st1 = ?L[i := ?e] @ turn_rows envs st (k, i)"
    by simp_all
  have len1: "length (notificationLogs st1) = length ?L + length (turn_rows envs st (k, i))"
    by (simp add: L1)
  from brest len1 have brest1: "\<forall>j \<in> set rest. j < length (notificationLogs st1)"
    by auto
  have Zeq: "zip [k ..< k + length (i # rest)] (i # rest) = (k, i) # Z"
  proof -
    have "k < k + length (i # rest)" by simp
    from upt_conv_Cons [OF this]
    have "[k ..< k + length (i # rest)] = k # [Suc k ..< k + length (i # rest)]" .
    moreover have "k + length (i # rest) = Suc k + length rest" by simp
    ultimately show ?thesis unfolding Z_def by (metis zip_Cons_Cons)
  qed
  have same: "notificationLogs st1 ! j = ?L ! j" if "j \<in> set rest" for j
  proof -
    from that brest irest have "j < length ?L" and "j \<noteq> i" by auto
    then show ?thesis by (simp add: L1 nth_append)
  qed
  have inZ: "snd x \<in> set rest" if "x \<in> set Z" for x
  proof -
    from that have "(fst x, snd x) \<in> set (zip [Suc k ..< Suc k + length rest] rest)"
      unfolding Z_def by (simp only: prod.collapse)
    then show ?thesis by (rule set_zip_rightD)
  qed
  have ok: "turn_ok envs st1 x = turn_ok envs st x"
    and rows: "turn_rows envs st1 x = turn_rows envs st x"
    and events: "turn_events envs st1 x = turn_events envs st x" if "x \<in> set Z" for x
    using turn_frame [OF P1 same [OF inZ [OF that]], of envs "fst x"] by simp_all
  have fok: "filter (turn_ok envs st1) Z = filter (turn_ok envs st) Z"
    by (rule filter_cong) (simp_all add: ok)
  have mrows: "map (turn_rows envs st1) Z = map (turn_rows envs st) Z"
    by (rule map_cong) (simp_all add: rows)
  have mevents: "map (turn_events envs st1) Z = map (turn_events envs st) Z"
    by (rule map_cong) (simp_all add: events)
  let ?R = "retry_loop envs (Suc k) rest (n1, st1)"
  from Cons.IH [OF drest brest1, of "Suc k" n1, folded Z_def]
  have c: "fst ?R = n1 + length (filter (turn_ok envs st1) Z)"
    and p: "notificationPreferences (snd ?R) = notificationPreferences st1"
    and a: "auditLogs (snd ?R) = auditLogs st1 @ concat (map (turn_events envs st1) Z)"
    and d: "drop (length (notificationLogs st1)) (notificationLogs (snd ?R))
            = concat (map (turn_rows envs st1) Z)"
    and u: "\<forall>x \<in> set Z. notificationLogs (snd ?R) ! snd x
             = (if turn_ok envs st1 x then upgraded (notificationLogs st1 ! snd x)
                else notificationLogs st1 ! snd x)"
    by blast+
  note unt = retry_loop_untouched [OF drest brest1, where envs = envs and k = "Suc k" and n = n1]
  have R: "retry_loop envs k (i # rest) (n, st) = ?R"
    by (simp add: r1)
  have c1: "fst ?R = n + length (filter (turn_ok envs st) ((k, i) # Z))"
    using c n1 fok by simp
  have a1: "auditLogs (snd ?R)
            = auditLogs st @ concat (map (turn_events envs st) ((k, i) # Z))"
    using a A1 mevents by simp
  have mid: "drop (length ?L) (take (length (notificationLogs st1)) (notificationLogs (snd ?R)))
             = turn_rows envs st (k, i)"
  proof (rule nth_equalityI)
    show "length (drop (length ?L) (take (length (notificationLogs st1))
                    (notificationLogs (snd ?R))))
          = length (turn_rows envs st (k, i))"
      using unt(1) len1 by simp
  next
    fix x
    assume "x < length (drop (length ?L) (take (length (notificationLogs st1))
                    (notificationLogs (snd ?R))))"
    then have x: "x < length (turn_rows envs st (k, i))"
      using unt(1) len1 by simp
    then have b: "length ?L + x < length (notificationLogs st1)"
      using len1 by simp
    have "length ?L + x \<notin> set rest"
      using brest by auto
    from unt(2) [OF b this]
    have "notificationLogs (snd ?R) ! (length ?L + x) = notificationLogs st1 ! (length ?L + x)" .
    also have "\<dots> = turn_rows envs st (k, i) ! x"
      by (simp add: L1 nth_append)
    finally show "drop (length ?L) (take (length (notificationLogs st1))
                    (notificationLogs (snd ?R))) ! x
          = turn_rows envs st (k, i) ! x"
      using x b unt(1) by simp
  qed
  have "drop (length ?L) (notificationLogs (snd ?R))
        = drop (length ?L) (take (length (notificationLogs st1)) (notificationLogs (snd ?R))
                            @ drop (length (notificationLogs st1)) (notificationLogs (snd ?R)))"
    by simp
  also have "\<dots> = drop (length ?L) (take (length (notificationLogs st1))
                                       (notificationLogs (snd ?R)))
                   @ drop (length (notificationLogs st1)) (notificationLogs (snd ?R))"
    using unt(1) len1 by (simp del: append_take_drop_id)
  finally have d1: "drop (length ?L) (notificationLogs (snd ?R))
        = concat (map (turn_rows envs st) ((k, i) # Z))"
    using mid d mrows by simp
  have u0: "notificationLogs (snd ?R) ! i = ?e"
  proof -
    from i len1 have "i < length (notificationLogs st1)" by simp
    from unt(2) [OF this irest]
    have "notificationLogs (snd ?R) ! i = notificationLogs st1 ! i" .
    also have "\<dots> = ?e" using i by (simp add: L1 nth_append)
    finally show ?thesis .
  qed
  have u1: "\<forall>x \<in> set ((k, i) # Z).
             notificationLogs (snd ?R) ! snd x
             = (if turn_ok envs st x then upgraded (?L ! snd x) else ?L ! snd x)"
  proof
    fix x assume "x \<in> set ((k, i) # Z)"
    then consider "x = (k, i)" | "x \<in> set Z" by auto
    then show "notificationLogs (snd ?R) ! snd x
             = (if turn_ok envs st x then upgraded (?L ! snd x) else ?L ! snd x)"
    proof cases
      case 1
      then show ?thesis using u0 by simp
    next
      case 2
      with u have "notificationLogs (snd ?R) ! snd x
             = (if turn_ok envs st1 x then upgraded (notificationLogs st1 ! snd x)
                else notificationLogs st1 ! snd x)" by blast
      then show ?thesis
        using ok [OF 2] same [OF inZ [OF 2]] by simp
    qed
  qed
  show ?case
    unfolding R Zeq using c1 p P1 a1 d1 u1 by simp
qed

section \<open>The retry operation as a whole\<close>

lemma retry_loop_append:
  "retry_loop envs k (xs @ ys) acc = retry_loop envs (k + length xs) ys (retry_loop envs k xs acc)"
  by (induction xs arbitrary: k acc) simp_all

lemma failedLogs_bound: "\<forall>j \<in> set (failedLogs st). j < length (notificationLogs st)"
  by (simp add: failedLogs_set)

lemma retry_turn:
  assumes "p < length (failedLogs st)"
  shows "retryFailedNotifications envs st
         = retry_loop envs (Suc p) (drop (Suc p) (failedLogs st))
             (retry_one (envs p) (failedLogs st ! p)
                (retry_loop envs 0 (take p (failedLogs st)) (0, st)))"
proof -
  have "failedLogs st = take p (failedLogs st) @ (failedLogs st ! p # drop (Suc p) (failedLogs st))"
    using assms by (simp add: id_take_nth_drop [symmetric])
  then have "retryFailedNotifications envs st
       = retry_loop envs 0 (take p (failedLogs st) @ (failedLogs st ! p # drop (Suc p) (failedLogs st)))
           (0, st)"
    by (simp add: retryFailedNotifications_def)
  also have "\<dots> = retry_loop envs (Suc p) (drop (Suc p) (failedLogs st))
             (retry_one (envs p) (failedLogs st ! p)
                (retry_loop envs 0 (take p (failedLogs st)) (0, st)))"
    using assms by (simp add: retry_loop_append min_def)
  finally show ?thesis .
qed

lemma retry_turn_response:
  assumes p: "p < length (failedLogs st)"
  shows "fst (sendNotification (envs p)
            (retry_request
               (notificationLogs (snd (retry_loop envs 0 (take p (failedLogs st)) (0, st)))
                  ! (failedLogs st ! p)))
            (snd (retry_loop envs 0 (take p (failedLogs st)) (0, st))))
         = fst (sendNotification (envs p)
                  (retry_request (notificationLogs st ! (failedLogs st ! p))) st)"
proof -
  let ?fl = "failedLogs st"
  let ?sp = "snd (retry_loop envs 0 (take p ?fl) (0, st))"
  have d: "distinct (take p ?fl)"
    using failedLogs_distinct by (rule distinct_take)
  have b: "\<forall>j \<in> set (take p ?fl). j < length (notificationLogs st)"
    using failedLogs_bound [of st] by (auto dest: in_set_takeD)
  have i: "?fl ! p < length (notificationLogs st)"
    using failedLogs_bound [of st] p by simp
  have n: "?fl ! p \<notin> set (take p ?fl)"
  proof
    assume "?fl ! p \<in> set (take p ?fl)"
    then obtain q where q: "q < length (take p ?fl)" and e: "take p ?fl ! q = ?fl ! p"
      by (auto simp: in_set_conv_nth)
    from q p have "q < p" and "q < length ?fl" by simp_all
    with e have "?fl ! q = ?fl ! p" by simp
    with failedLogs_distinct [of st] \<open>q < length ?fl\<close> p have "q = p"
      by (simp add: nth_eq_iff_index_eq)
    with \<open>q < p\<close> show False by simp
  qed
  from retry_loop_run [OF d b, where envs = envs and k = 0 and n = 0]
  have pr: "notificationPreferences ?sp = notificationPreferences st" by blast
  from retry_loop_untouched(2) [OF d b i n, where envs = envs and k = 0 and n = 0]
  have e: "notificationLogs ?sp ! (?fl ! p) = notificationLogs st ! (?fl ! p)" .
  show ?thesis
    unfolding e by (rule frame_response [OF pr])
qed

lemma retry_run:
  "fst (retryFailedNotifications envs st)
     = length (filter (turn_ok envs st) (zip [0 ..< length (failedLogs st)] (failedLogs st)))"
  "notificationPreferences (snd (retryFailedNotifications envs st)) = notificationPreferences st"
  "auditLogs (snd (retryFailedNotifications envs st))
     = auditLogs st
       @ concat (map (turn_events envs st) (zip [0 ..< length (failedLogs st)] (failedLogs st)))"
  "drop (length (notificationLogs st)) (notificationLogs (snd (retryFailedNotifications envs st)))
     = concat (map (turn_rows envs st) (zip [0 ..< length (failedLogs st)] (failedLogs st)))"
  "\<forall>x \<in> set (zip [0 ..< length (failedLogs st)] (failedLogs st)).
      notificationLogs (snd (retryFailedNotifications envs st)) ! snd x
      = (if turn_ok envs st x then upgraded (notificationLogs st ! snd x)
         else notificationLogs st ! snd x)"
  using retry_loop_run [OF failedLogs_distinct failedLogs_bound, where envs = envs and k = 0 and n = 0]
  by (simp_all add: retryFailedNotifications_def)

lemma turn_in_zip:
  "p < length xs \<Longrightarrow> (p, xs ! p) \<in> set (zip [0 ..< length xs] xs)"
  by (auto simp: in_set_zip intro!: exI [of _ p])

lemma retry_selected_entry:
  assumes "p < length (failedLogs st)"
  shows "notificationLogs (snd (retryFailedNotifications envs st)) ! (failedLogs st ! p)
         = (if rs_success (fst (sendNotification (envs p)
                 (retry_request (notificationLogs st ! (failedLogs st ! p))) st))
            then upgraded (notificationLogs st ! (failedLogs st ! p))
            else notificationLogs st ! (failedLogs st ! p))"
  using retry_run(5) [where st = st and envs = envs] turn_in_zip [OF assms]
  by (fastforce simp: turn_ok_def)


lemma failedLogs_example: "failedLogs state_failed = [0]"
  by (simp add: failedLogs_def state_failed_def log_failed_def log_exhausted_def)

text \<open>
  C5: take the \<open>p\<close>-th entry that the retry operation selects, at position
  \<open>failedLogs st ! p\<close> of the log. The operation gives it a turn of its loop, in which it
  re-issues the send for that entry; the response of that send is the one the same send
  gets in the state the operation started from. When that send succeeds, the operation
  leaves the original entry with status \<^verbatim>\<open>sent\<close> and its \<^verbatim>\<open>retryCount\<close> plus one, and the new
  entry that the send appended, with status \<^verbatim>\<open>sent\<close> and \<^verbatim>\<open>retryCount\<close> zero, is in the log
  behind the original entries: two rows for one successful retry. The number returned is
  the number of selected entries whose send succeeds, which is the number of original
  entries that were not \<^verbatim>\<open>sent\<close> before and are \<^verbatim>\<open>sent\<close> after, and the number of appended
  entries with status \<^verbatim>\<open>sent\<close>. The entries appended are those of the sends, in the order
  of the turns; an original entry is unchanged or upgraded in the way described.
\<close>

theorem retry_success_upgrades_original:
  "(p < length (failedLogs st)
      \<and> rs_success (fst (sendNotification (envs p)
                          (retry_request (notificationLogs st ! (failedLogs st ! p))) st))
    \<longrightarrow> notificationLogs (snd (retryFailedNotifications envs st)) ! (failedLogs st ! p)
         = (notificationLogs st ! (failedLogs st ! p))
             \<lparr>l_status := Sent,
              l_retryCount := l_retryCount (notificationLogs st ! (failedLogs st ! p)) + 1\<rparr>
      \<and> (\<exists>new. drop (length (notificationLogs st))
                  (notificationLogs (snd (sendNotification (envs p)
                      (retry_request (notificationLogs st ! (failedLogs st ! p))) st)))
                = [new]
              \<and> l_status new = Sent \<and> l_retryCount new = 0
              \<and> new \<in> set (drop (length (notificationLogs st))
                              (notificationLogs (snd (retryFailedNotifications envs st))))))
   \<and> (p < length (failedLogs st)
    \<longrightarrow> retryFailedNotifications envs st
         = retry_loop envs (Suc p) (drop (Suc p) (failedLogs st))
             (retry_one (envs p) (failedLogs st ! p)
                (retry_loop envs 0 (take p (failedLogs st)) (0, st)))
      \<and> fst (sendNotification (envs p)
            (retry_request
               (notificationLogs (snd (retry_loop envs 0 (take p (failedLogs st)) (0, st)))
                  ! (failedLogs st ! p)))
            (snd (retry_loop envs 0 (take p (failedLogs st)) (0, st))))
         = fst (sendNotification (envs p)
                  (retry_request (notificationLogs st ! (failedLogs st ! p))) st))
   \<and> fst (retryFailedNotifications envs st)
     = length (filter (\<lambda>(q, j). rs_success (fst (sendNotification (envs q)
                                   (retry_request (notificationLogs st ! j)) st)))
                (zip [0 ..< length (failedLogs st)] (failedLogs st)))
   \<and> drop (length (notificationLogs st)) (notificationLogs (snd (retryFailedNotifications envs st)))
     = concat (map (\<lambda>(q, j). drop (length (notificationLogs st))
                     (notificationLogs (snd (sendNotification (envs q)
                         (retry_request (notificationLogs st ! j)) st))))
                (zip [0 ..< length (failedLogs st)] (failedLogs st)))
   \<and> ((i < length (notificationLogs st)
      \<and> rs_success (fst (sendNotification env (retry_request (notificationLogs st ! i)) st))
    \<longrightarrow> fst (retry_one env i (n, st)) = n + 1
      \<and> (\<exists>new. notificationLogs (snd (retry_one env i (n, st)))
                 = (notificationLogs st)
                     [i := (notificationLogs st ! i)
                             \<lparr>l_status := Sent,
                              l_retryCount := l_retryCount (notificationLogs st ! i) + 1\<rparr>]
                   @ [new]
               \<and> l_status new = Sent \<and> l_retryCount new = 0))
   \<and> (\<forall>j < length (notificationLogs st).
         notificationLogs (snd (retryFailedNotifications envs st)) ! j = notificationLogs st ! j
         \<or> (j \<in> set (failedLogs st)
            \<and> notificationLogs (snd (retryFailedNotifications envs st)) ! j
              = (notificationLogs st ! j)
                  \<lparr>l_status := Sent,
                   l_retryCount := l_retryCount (notificationLogs st ! j) + 1\<rparr>))
   \<and> fst (retryFailedNotifications envs st)
     = length (filter (\<lambda>j. l_status (notificationLogs st ! j) \<noteq> Sent
                  \<and> l_status (notificationLogs (snd (retryFailedNotifications envs st)) ! j) = Sent)
         [0 ..< length (notificationLogs st)])
   \<and> length (filter (\<lambda>entry. l_status entry = Sent)
        (drop (length (notificationLogs st))
           (notificationLogs (snd (retryFailedNotifications envs st)))))
     = fst (retryFailedNotifications envs st))"
  (is "?N1 \<and> ?N2 \<and> ?N3 \<and> ?N4 \<and> ?OLD")
proof -
  let ?fl = "failedLogs st"
  let ?L = "notificationLogs st"
  let ?L' = "notificationLogs (snd (retryFailedNotifications envs st))"
  have n1: ?N1
  proof (intro impI)
    assume a: "p < length ?fl
      \<and> rs_success (fst (sendNotification (envs p) (retry_request (?L ! (?fl ! p))) st))"
    let ?r = "sendNotification (envs p) (retry_request (?L ! (?fl ! p))) st"
    from a retry_selected_entry [of p st envs]
    have u: "?L' ! (?fl ! p)
         = (?L ! (?fl ! p))\<lparr>l_status := Sent, l_retryCount := l_retryCount (?L ! (?fl ! p)) + 1\<rparr>"
      by (simp add: upgraded_def)
    from sendNotification_logs [of "envs p" "retry_request (?L ! (?fl ! p))" st] a
    obtain new where new: "notificationLogs (snd ?r) = ?L @ [new]"
      "l_status new = Sent" "l_retryCount new = 0"
      by auto
    then have d: "drop (length ?L) (notificationLogs (snd ?r)) = [new]" by simp
    then have "turn_rows envs st (p, ?fl ! p) = [new]"
      by (simp add: turn_rows_def)
    moreover from a have "(p, ?fl ! p) \<in> set (zip [0 ..< length ?fl] ?fl)"
      by (simp add: turn_in_zip)
    ultimately have "new \<in> set (concat (map (turn_rows envs st) (zip [0 ..< length ?fl] ?fl)))"
      by force
    then have m: "new \<in> set (drop (length ?L) ?L')"
      by (simp add: retry_run(4))
    from d new m
    have "drop (length ?L) (notificationLogs (snd ?r)) = [new]
              \<and> l_status new = Sent \<and> l_retryCount new = 0
              \<and> new \<in> set (drop (length ?L) ?L')"
      by simp
    then have "\<exists>new. drop (length ?L) (notificationLogs (snd ?r)) = [new]
              \<and> l_status new = Sent \<and> l_retryCount new = 0
              \<and> new \<in> set (drop (length ?L) ?L')"
      by blast
    with u show "?L' ! (?fl ! p)
         = (?L ! (?fl ! p))\<lparr>l_status := Sent, l_retryCount := l_retryCount (?L ! (?fl ! p)) + 1\<rparr>
      \<and> (\<exists>new. drop (length ?L) (notificationLogs (snd ?r)) = [new]
              \<and> l_status new = Sent \<and> l_retryCount new = 0
              \<and> new \<in> set (drop (length ?L) ?L'))"
      by (rule conjI)
  qed
  have n2: ?N2
    using retry_turn [of p st envs] retry_turn_response [of p st envs] by blast
  have n3: ?N3
    using retry_run(1) [of envs st] by (simp add: turn_ok_def)
  have n4: ?N4
    using retry_run(4) [of st envs] by (simp add: turn_rows_def)
  have old: ?OLD
    by (rule retry_upgrade_facts)
  show ?thesis
    by (rule conjI [OF n1 conjI [OF n2 conjI [OF n3 conjI [OF n4 old]]]])
qed

theorem retry_success_upgrades_original_witness:
  "0 < length (failedLogs state_failed)
   \<and> rs_success (fst (sendNotification (envs_night 0)
        (retry_request (notificationLogs state_failed ! (failedLogs state_failed ! 0)))
        state_failed))
   \<and> fst (retryFailedNotifications envs_night state_failed) = 1
   \<and> notificationLogs (snd (retryFailedNotifications envs_night state_failed)) ! 0
       = log_failed\<lparr>l_status := Sent, l_retryCount := 1\<rparr>"
proof -
  note T = retry_success_upgrades_original [of 0 state_failed envs_night]
  have h1: "0 < length (failedLogs state_failed)"
    by (simp add: failedLogs_example)
  have h2: "rs_success (fst (sendNotification (envs_night 0)
        (retry_request (notificationLogs state_failed ! (failedLogs state_failed ! 0)))
        state_failed))"
    by (simp add: failedLogs_example envs_night_def retry_example_success)
  from T h1 h2
  have u: "notificationLogs (snd (retryFailedNotifications envs_night state_failed))
             ! (failedLogs state_failed ! 0)
           = (notificationLogs state_failed ! (failedLogs state_failed ! 0))
               \<lparr>l_status := Sent,
                l_retryCount := l_retryCount (notificationLogs state_failed
                                                ! (failedLogs state_failed ! 0)) + 1\<rparr>"
    by blast
  from T
  have c: "fst (retryFailedNotifications envs_night state_failed)
     = length (filter (\<lambda>(q, j). rs_success (fst (sendNotification (envs_night q)
                                   (retry_request (notificationLogs state_failed ! j))
                                   state_failed)))
                (zip [0 ..< length (failedLogs state_failed)] (failedLogs state_failed)))"
    by blast
  have l: "notificationLogs state_failed ! 0 = log_failed"
    by (simp add: state_failed_def)
  have z: "l_retryCount log_failed = 0"
    by (simp add: log_failed_def)
  have c1: "fst (retryFailedNotifications envs_night state_failed) = 1"
    using h2 unfolding c by (simp add: failedLogs_example)
  have u1: "notificationLogs (snd (retryFailedNotifications envs_night state_failed)) ! 0
       = log_failed\<lparr>l_status := Sent, l_retryCount := 1\<rparr>"
    using u by (simp add: failedLogs_example l z)
  from h1 h2 c1 u1 show ?thesis by blast
qed



end
